theory Spec2Isabelle
  imports Complex_Main "HOL-Library.Word"
begin

unbundle bit_operations_syntax

section \<open>Data model\<close>

text \<open>
  The program is a single C++ file built on OpenCV and the ArUco library.
  \<^verbatim>\<open>Point2f\<close> and \<^verbatim>\<open>Point3f\<close> are OpenCV's points with \<^verbatim>\<open>float\<close> coordinates.
  Coordinates are modelled as real numbers: rounding, NaN and signed zero of IEEE
  arithmetic are outside the model, and C++'s \<^verbatim>\<open>==\<close> on points is HOL equality.
  A division whose divisor is zero is not a number in the program; it is written out
  as \<open>None\<close> wherever the source divides (see \<open>fdiv\<close>).
\<close>

datatype Point2f = Point2f (x2: real) (y2: real)

datatype Point3f = Point3f (x3: real) (y3: real) (z3: real)

text \<open>A \<^verbatim>\<open>cv::Mat\<close> of doubles, as its rows.\<close>

type_synonym Mat = "real list list"

text \<open>
  The checked accesses of the source (\<^verbatim>\<open>vector::at\<close>) throw \<^verbatim>\<open>std::out_of_range\<close>;
  the unchecked ones (\<^verbatim>\<open>operator[]\<close>) are undefined out of range. Both are the error
  value \<open>OutOfRange\<close> here, so that no out-of-range read is hidden in \<open>xs ! i\<close>.
  \<open>CvException\<close> is the exception of a failed OpenCV assertion.
\<close>

datatype error = OutOfRange | CvException

definition vec_at :: "'a list \<Rightarrow> nat \<Rightarrow> error + 'a" where
  "vec_at xs i = (if i < length xs then Inr (xs ! i) else Inl OutOfRange)"

text \<open>\<^verbatim>\<open>vector::resize\<close>: cut, or fill with value-initialised elements.\<close>

definition resize :: "'a list \<Rightarrow> nat \<Rightarrow> 'a \<Rightarrow> 'a list" where
  "resize xs n v = take n xs @ replicate (n - length xs) v"

text \<open>\<^verbatim>\<open>struct intrinsicCalibration\<close>. A \<^verbatim>\<open>double\<close> that may be not-a-number is a \<open>real option\<close>.\<close>

record intrinsicCalibration =
  cameraMatrix :: Mat
  distCoeffs :: Mat
  rvecs :: "Mat list"
  tvecs :: "Mat list"
  imagePoints :: "Point2f list list"
  objectPoints :: "Point3f list list"
  reprojErrs :: "real option list"
  totalAvgErr :: "real option"

text \<open>
  ArUco's \<^verbatim>\<open>Marker\<close> is a vector of image corners with an id, \<^verbatim>\<open>Marker3DInfo\<close> a vector
  of 3D points with an id, and a \<^verbatim>\<open>MarkerMap\<close> a vector of \<^verbatim>\<open>Marker3DInfo\<close>.
\<close>

record Marker =
  marker_id :: int
  marker_corners :: "Point2f list"

record Marker3DInfo =
  info_id :: int
  info_points :: "Point3f list"

type_synonym MarkerMap = "Marker3DInfo list"

datatype Pattern = CHESSBOARD | ARUCO_SINGLE | ARUCO_BOX | NOT_EXISTING

datatype Mode = INTRINSIC | STEREO | PREVIEW | INVALID

text \<open>
  The fields of \<^verbatim>\<open>class Settings\<close> that the calibration functions read. The source
  reads \<^verbatim>\<open>s.planeList\<close> although the class does not declare it (the list of plane
  labels is declared in \<^verbatim>\<open>struct arucoPattern\<close> and filled by \<^verbatim>\<open>readConfigList\<close>); it
  is a field of the settings here. \<^verbatim>\<open>int\<close> is a 32-bit word where its bits matter
  (\<open>flag\<close>) and an integer elsewhere.
\<close>

record Settings =
  mode :: Mode
  calibrationPattern :: Pattern
  boardSize_width :: int
  boardSize_height :: int
  squareSize :: real
  configList :: "MarkerMap list"
  planeList :: "string list"
  nConfigs :: int
  nImages :: int
  intrinsicInput :: intrinsicCalibration
  useIntrinsicInput :: bool
  flag :: "32 word"
  imageSize :: "int \<times> int"

section \<open>Plane unification: \<^verbatim>\<open>getIntPoints\<close>\<close>

text \<open>
  \<^verbatim>\<open>
  vector<Point3f> getIntPoints(Settings s, vector<Point3f> &points, int index){
      vector<Point3f> intPoints;
      string plane = s.planeList[index];
      switch (plane) {
          case "XY":
              for(auto p:points) intPoints.push_back(Point3f((p.x+1000)/125, (p.y+1000)/125, 0));
              break;
          case "YZ":
              for(auto p:points) intPoints.push_back(Point3f(0, (p.y+1000)/125, (-p.x+1000)/125));
              break;
          case "XZ":
              for(auto p:points) intPoints.push_back(Point3f((p.x+1000)/125, 0, (-p.y+1000)/125));
              break;
      }
      return intPoints;
  }
  \<close>
  The switch has no default case: for any other label the loop bodies are skipped and
  the empty vector is returned.
\<close>

definition getIntPoints_switch :: "string \<Rightarrow> Point3f list \<Rightarrow> Point3f list" where
  "getIntPoints_switch plane points =
     (if plane = ''XY'' then
        map (\<lambda>p. Point3f ((x3 p + 1000) / 125) ((y3 p + 1000) / 125) 0) points
      else if plane = ''YZ'' then
        map (\<lambda>p. Point3f 0 ((y3 p + 1000) / 125) ((- x3 p + 1000) / 125)) points
      else if plane = ''XZ'' then
        map (\<lambda>p. Point3f ((x3 p + 1000) / 125) 0 ((- y3 p + 1000) / 125)) points
      else [])"

definition getIntPoints :: "Settings \<Rightarrow> Point3f list \<Rightarrow> int \<Rightarrow> error + Point3f list" where
  "getIntPoints s points index =
     (if index < 0 then Inl OutOfRange
      else case vec_at (planeList s) (nat index) of
             Inl e \<Rightarrow> Inl e
           | Inr plane \<Rightarrow> Inr (getIntPoints_switch plane points))"


section \<open>Shared-point matching: \<^verbatim>\<open>getSharedPoints\<close>\<close>

text \<open>
  The inner scan
  \<^verbatim>\<open>
      for (shared=0; shared<(int)oPoints2->size(); shared++)
          if (oPoints->at(j) == oPoints2->at(shared)) break;
  \<close>
  starts at 0 for every \<open>j\<close> and leaves \<open>shared\<close> at the first index holding an equal
  point, or at the size of the vector when there is none.
\<close>

fun findShared :: "Point3f \<Rightarrow> Point3f list \<Rightarrow> nat" where
  "findShared p [] = 0"
| "findShared p (q # qs) = (if p = q then 0 else Suc (findShared p qs))"

text \<open>
  The loop over \<open>j\<close> for one image. The first argument is the part of \<^verbatim>\<open>*oPoints\<close> from
  index \<open>j\<close> on; the accumulator holds the three \<^verbatim>\<open>shared...\<close> vectors.
  \<^verbatim>\<open>
      for (int j=0; j<(int)oPoints->size(); j++)
      {
          for (shared=0; ...) ...
          if (shared != (int)oPoints2->size())       //object point is shared
          {
              sharedObjectPoints.push_back(oPoints->at(j));
              sharedImagePoints.push_back(iPoints->at(j));
              sharedImagePoints2.push_back(iPoints2->at(shared));
          }
      }
  \<close>
\<close>

fun getSharedPoints_scan ::
  "Point3f list \<Rightarrow> nat \<Rightarrow> Point2f list \<Rightarrow> Point3f list \<Rightarrow> Point2f list \<Rightarrow>
   Point3f list \<times> Point2f list \<times> Point2f list \<Rightarrow>
   error + (Point3f list \<times> Point2f list \<times> Point2f list)" where
  "getSharedPoints_scan [] j iPoints oPoints2 iPoints2 acc = Inr acc"
| "getSharedPoints_scan (p # ps) j iPoints oPoints2 iPoints2 (so, si, si2) =
     (let shared = findShared p oPoints2 in
      if shared \<noteq> length oPoints2 then
        (case vec_at iPoints j of
           Inl e \<Rightarrow> Inl e
         | Inr ip \<Rightarrow>
             (case vec_at iPoints2 shared of
                Inl e \<Rightarrow> Inl e
              | Inr ip2 \<Rightarrow>
                  getSharedPoints_scan ps (Suc j) iPoints oPoints2 iPoints2
                    (so @ [p], si @ [ip], si2 @ [ip2])))
      else getSharedPoints_scan ps (Suc j) iPoints oPoints2 iPoints2 (so, si, si2))"

definition getSharedPoints_image ::
  "Point3f list \<Rightarrow> Point2f list \<Rightarrow> Point3f list \<Rightarrow> Point2f list \<Rightarrow>
   error + (Point3f list \<times> Point2f list \<times> Point2f list)" where
  "getSharedPoints_image oPoints iPoints oPoints2 iPoints2 =
     getSharedPoints_scan oPoints 0 iPoints oPoints2 iPoints2 ([], [], [])"

text \<open>
  The loop over the images, on the list of indices still to visit. Each pass reads the
  four vectors with \<^verbatim>\<open>at(i)\<close> and then overwrites them:
  \<^verbatim>\<open>
      oPoints = &inCal.objectPoints.at(i);   oPoints2 = &inCal2.objectPoints.at(i);
      iPoints = &inCal.imagePoints.at(i);    iPoints2 = &inCal2.imagePoints.at(i);
      ...
      *oPoints = sharedObjectPoints;   *oPoints2 = sharedObjectPoints;
      *iPoints = sharedImagePoints;    *iPoints2 = sharedImagePoints2;
  \<close>
  The two calibrations are distinct objects (the caller passes \<^verbatim>\<open>inCal\<close> and \<^verbatim>\<open>inCal2\<close>).
\<close>

fun getSharedPoints_loop ::
  "nat list \<Rightarrow> intrinsicCalibration \<Rightarrow> intrinsicCalibration \<Rightarrow>
   error + (intrinsicCalibration \<times> intrinsicCalibration)" where
  "getSharedPoints_loop [] inCal inCal2 = Inr (inCal, inCal2)"
| "getSharedPoints_loop (i # is) inCal inCal2 =
     (case vec_at (objectPoints inCal) i of Inl e \<Rightarrow> Inl e | Inr oPoints \<Rightarrow>
     (case vec_at (objectPoints inCal2) i of Inl e \<Rightarrow> Inl e | Inr oPoints2 \<Rightarrow>
     (case vec_at (imagePoints inCal) i of Inl e \<Rightarrow> Inl e | Inr iPoints \<Rightarrow>
     (case vec_at (imagePoints inCal2) i of Inl e \<Rightarrow> Inl e | Inr iPoints2 \<Rightarrow>
     (case getSharedPoints_image oPoints iPoints oPoints2 iPoints2 of
        Inl e \<Rightarrow> Inl e
      | Inr (so, si, si2) \<Rightarrow>
          getSharedPoints_loop is
            (inCal\<lparr>objectPoints := (objectPoints inCal)[i := so],
                   imagePoints := (imagePoints inCal)[i := si]\<rparr>)
            (inCal2\<lparr>objectPoints := (objectPoints inCal2)[i := so],
                    imagePoints := (imagePoints inCal2)[i := si2]\<rparr>))))))"

definition getSharedPoints ::
  "intrinsicCalibration \<Rightarrow> intrinsicCalibration \<Rightarrow>
   error + (intrinsicCalibration \<times> intrinsicCalibration)" where
  "getSharedPoints inCal inCal2 =
     getSharedPoints_loop [0..<length (objectPoints inCal)] inCal inCal2"

text \<open>
  The invariant of an Image Correspondence Collection: as many 2D sets as 3D sets, and
  in every image as many 2D points as 3D points.
\<close>

definition corr_inv :: "intrinsicCalibration \<Rightarrow> bool" where
  "corr_inv inCal \<longleftrightarrow>
     list_all2 (\<lambda>ip op. length ip = length op) (imagePoints inCal) (objectPoints inCal)"

section \<open>Chessboard detection\<close>

text \<open>
  \<^verbatim>\<open>
  void calcChessboardCorners(Settings s, vector<Point3f>& objectPointsBuf)
  {
      for( int i = 0; i < s.boardSize.height; i++ )
          for( int j = 0; j < s.boardSize.width; j++ )
              objectPointsBuf.push_back(Point3f(float(j*s.squareSize),
                                        float(i*s.squareSize), 0));
  }
  \<close>
\<close>

definition calcChessboardCorners :: "Settings \<Rightarrow> Point3f list \<Rightarrow> Point3f list" where
  "calcChessboardCorners s objectPointsBuf =
     objectPointsBuf @
     concat (map (\<lambda>i. map (\<lambda>j. Point3f (real j * squareSize s) (real i * squareSize s) 0)
                          [0..<nat (boardSize_width s)])
                 [0..<nat (boardSize_height s)])"

text \<open>
  \<^verbatim>\<open>chessboardDetect\<close>. OpenCV's \<^verbatim>\<open>findChessboardCorners\<close> is outside the program: its
  answer \<open>found\<close> and the corners it wrote to \<^verbatim>\<open>imagePointsBuf\<close> (refined in place by
  \<^verbatim>\<open>cornerSubPix\<close> when found) are arguments. Drawing is left out.
  \<^verbatim>\<open>
      if (found)
      {
          cornerSubPix(...);
          inCal.imagePoints.push_back(imagePointsBuf);
          calcChessboardCorners(s, objectPointsBuf);
          inCal.objectPoints.push_back(objectPointsBuf);
          drawChessboardCorners(...);
      }
  \<close>
\<close>

definition chessboardDetect ::
  "Settings \<Rightarrow> bool \<Rightarrow> Point2f list \<Rightarrow> intrinsicCalibration \<Rightarrow> intrinsicCalibration" where
  "chessboardDetect s found imagePointsBuf inCal =
     (if found then
        inCal\<lparr>imagePoints := imagePoints inCal @ [imagePointsBuf],
               objectPoints := objectPoints inCal @ [calcChessboardCorners s []]\<rparr>
      else inCal)"

section \<open>ArUco detection\<close>

text \<open>
  The search of a detected marker in the map:
  \<^verbatim>\<open>
      int markerIndex=-1;
      for(size_t j=0;j<map.size() && markerIndex==-1;j++)
          if (map[j].id==markers_detected[i].id ) markerIndex=j;
  \<close>
  \<open>None\<close> is \<^verbatim>\<open>-1\<close>.
\<close>

fun findMarkerIndex :: "MarkerMap \<Rightarrow> int \<Rightarrow> nat option" where
  "findMarkerIndex [] mid = None"
| "findMarkerIndex (m # ms) mid =
     (if info_id m = mid then Some 0 else map_option Suc (findMarkerIndex ms mid))"

text \<open>
  The four pushes for one marker found in the map. The source reads corner \<open>j\<close> of the
  marker and of the map entry with \<^verbatim>\<open>operator[]\<close> for \<open>j < 4\<close>.
  \<^verbatim>\<open>
      for(int j=0;j<4;j++){
          imagePointsBuf.push_back(markers_detected[i][j]);
          objectPointsBuf.push_back(map[markerIndex][j]);
      }
  \<close>
\<close>

definition push_corners ::
  "Point2f list \<Rightarrow> Point3f list \<Rightarrow> Point2f list \<times> Point3f list \<Rightarrow>
   error + (Point2f list \<times> Point3f list)" where
  "push_corners corners points acc =
     (if length corners < 4 \<or> length points < 4 then Inl OutOfRange
      else Inr (fst acc @ take 4 corners, snd acc @ take 4 points))"

fun calcArucoCorners_loop ::
  "Marker list \<Rightarrow> MarkerMap \<Rightarrow> Point2f list \<times> Point3f list \<Rightarrow>
   error + (Point2f list \<times> Point3f list)" where
  "calcArucoCorners_loop [] mmap acc = Inr acc"
| "calcArucoCorners_loop (m # ms) mmap acc =
     (case findMarkerIndex mmap (marker_id m) of
        None \<Rightarrow> calcArucoCorners_loop ms mmap acc
      | Some k \<Rightarrow>
          (case push_corners (marker_corners m) (info_points (mmap ! k)) acc of
             Inl e \<Rightarrow> Inl e
           | Inr acc' \<Rightarrow> calcArucoCorners_loop ms mmap acc'))"

text \<open>\<^verbatim>\<open>calcArucoCorners\<close> clears both buffers and then runs the loop.\<close>

definition calcArucoCorners ::
  "Marker list \<Rightarrow> MarkerMap \<Rightarrow> error + (Point2f list \<times> Point3f list)" where
  "calcArucoCorners markers_detected mmap = calcArucoCorners_loop markers_detected mmap ([], [])"

text \<open>
  The loop of \<^verbatim>\<open>arucoDetect\<close> over the marker maps, on the list of indices \<open>j\<close> still to
  visit. The marker detector is outside the program: \<open>detect\<close> gives the markers it
  finds in the image once set to a map's dictionary. The accumulator is the pair of
  vectors that \<^verbatim>\<open>imgImagePoints\<close> and \<^verbatim>\<open>imgObjectPoints\<close> point to. Drawing is left out.
  \<^verbatim>\<open>
      for(int j=0; j < s.nConfigs; j++) {
          MarkerMap MarkerMapConfig = s.configList[j];
          ...
          detectedMarkers = TheMarkerDetector.detect(img);
          markersFromSet = MarkerMapConfig.getIndices(detectedMarkers);
          calcArucoCorners(imagePointsBuf,objectPointsBuf,detectedMarkers,MarkerMapConfig);
          objectPointsBuf = getIntPoints(s, objectPointsBuf, j);
          if(objectPointsBuf.size()>0 && s.mode != Settings::PREVIEW){
              for (auto p:imagePointsBuf) imgImagePoints->push_back(p);
              for (auto p:objectPointsBuf) imgObjectPoints->push_back(p);
          }
          drawArucoMarkers(s, img, objectPointsBuf, detectedMarkers, markersFromSet, j);
      }
  \<close>
\<close>

fun arucoDetect_configs ::
  "(MarkerMap \<Rightarrow> Marker list) \<Rightarrow> Settings \<Rightarrow> nat list \<Rightarrow> Point2f list \<times> Point3f list \<Rightarrow>
   error + (Point2f list \<times> Point3f list)" where
  "arucoDetect_configs detect s [] acc = Inr acc"
| "arucoDetect_configs detect s (j # js) acc =
     (case vec_at (configList s) j of Inl e \<Rightarrow> Inl e | Inr MarkerMapConfig \<Rightarrow>
     (case calcArucoCorners (detect MarkerMapConfig) MarkerMapConfig of
        Inl e \<Rightarrow> Inl e
      | Inr (imagePointsBuf, objectPointsBuf) \<Rightarrow>
     (case getIntPoints s objectPointsBuf (int j) of
        Inl e \<Rightarrow> Inl e
      | Inr intPoints \<Rightarrow>
          arucoDetect_configs detect s js
            (if length intPoints > 0 \<and> mode s \<noteq> PREVIEW
             then (fst acc @ imagePointsBuf, snd acc @ intPoints)
             else acc))))"

text \<open>
  \<^verbatim>\<open>arucoDetect\<close>: outside preview mode the two vectors of image \<^verbatim>\<open>vectorIndex\<close> are taken
  with \<^verbatim>\<open>at\<close>, which throws out of range, and the loop appends to them.
  \<^verbatim>\<open>
      if (s.mode != Settings::PREVIEW) {
          imgImagePoints = &inCal.imagePoints.at(vectorIndex);
          imgObjectPoints = &inCal.objectPoints.at(vectorIndex);
      }
  \<close>
\<close>

definition arucoDetect ::
  "(MarkerMap \<Rightarrow> Marker list) \<Rightarrow> Settings \<Rightarrow> intrinsicCalibration \<Rightarrow> int \<Rightarrow>
   error + intrinsicCalibration" where
  "arucoDetect detect s inCal vectorIndex =
     (if mode s \<noteq> PREVIEW then
        (if vectorIndex < 0 then Inl OutOfRange
         else
           (case vec_at (imagePoints inCal) (nat vectorIndex) of Inl e \<Rightarrow> Inl e | Inr imgI \<Rightarrow>
           (case vec_at (objectPoints inCal) (nat vectorIndex) of Inl e \<Rightarrow> Inl e | Inr imgO \<Rightarrow>
           (case arucoDetect_configs detect s [0..<nat (nConfigs s)] (imgI, imgO) of
              Inl e \<Rightarrow> Inl e
            | Inr (imgI', imgO') \<Rightarrow>
                Inr (inCal\<lparr>imagePoints := (imagePoints inCal)[nat vectorIndex := imgI'],
                           objectPoints := (objectPoints inCal)[nat vectorIndex := imgO']\<rparr>)))))
      else
        (case arucoDetect_configs detect s [0..<nat (nConfigs s)] ([], []) of
           Inl e \<Rightarrow> Inl e
         | Inr r \<Rightarrow> Inr inCal))"

text \<open>
  The collections of an ArUco run are allocated before the first image is read, in
  \<^verbatim>\<open>calibrateWithSettings\<close>, one empty set for every image (or image pair):
  \<^verbatim>\<open>
      intrinsicCalibration inCal, inCal2;
      int size = (s.mode == Settings::STEREO) ? s.nImages/2 : s.nImages;
      if (s.calibrationPattern != Settings::CHESSBOARD) {
          inCal.imagePoints.resize(size);
          inCal.objectPoints.resize(size);
          ...
      }
  \<close>
  \<^verbatim>\<open>nImages\<close> is the size of the image list, so \<open>size\<close> is not negative.
\<close>

definition new_intrinsicCalibration :: intrinsicCalibration where
  "new_intrinsicCalibration =
     \<lparr>cameraMatrix = [], distCoeffs = [], rvecs = [], tvecs = [],
      imagePoints = [], objectPoints = [], reprojErrs = [], totalAvgErr = Some 0\<rparr>"

definition calibrateWithSettings_resize :: "Settings \<Rightarrow> intrinsicCalibration \<Rightarrow> intrinsicCalibration" where
  "calibrateWithSettings_resize s inCal =
     (let size = (if mode s = STEREO then nImages s div 2 else nImages s) in
      if calibrationPattern s \<noteq> CHESSBOARD then
        inCal\<lparr>imagePoints := resize (imagePoints inCal) (nat size) [],
               objectPoints := resize (objectPoints inCal) (nat size) []\<rparr>
      else inCal)"

text \<open>
  The detection pass of \<^verbatim>\<open>calibrateWithSettings\<close> for the chessboard, over the images that
  were read, each given by the detector's answer for it. In a stereo run the images
  alternate between the two cameras, starting with the first; otherwise every image
  goes to the first calibration.
  \<^verbatim>\<open>
      for(int i = 0;;i++)
      {
          if (i%2 == 0) {
              currentInCal = &inCal;
              vectorIndex++;
          } else if (s.mode == Settings::STEREO)
              currentInCal = &inCal2;
          else
              vectorIndex++;
          ...
          if(s.calibrationPattern == Settings::CHESSBOARD)
              chessboardDetect(s, img, *currentInCal);
  \<close>
\<close>

fun calibrateWithSettings_chessboard ::
  "Settings \<Rightarrow> nat \<Rightarrow> (bool \<times> Point2f list) list \<Rightarrow>
   intrinsicCalibration \<times> intrinsicCalibration \<Rightarrow> intrinsicCalibration \<times> intrinsicCalibration" where
  "calibrateWithSettings_chessboard s i [] cals = cals"
| "calibrateWithSettings_chessboard s i ((found, imagePointsBuf) # imgs) cals =
     (if i mod 2 = 0 \<or> mode s \<noteq> STEREO then
        calibrateWithSettings_chessboard s (Suc i) imgs
          (chessboardDetect s found imagePointsBuf (fst cals), snd cals)
      else
        calibrateWithSettings_chessboard s (Suc i) imgs
          (fst cals, chessboardDetect s found imagePointsBuf (snd cals)))"

section \<open>Reprojection error\<close>

text \<open>
  A floating-point quotient with divisor zero is infinite or not-a-number; \<open>None\<close> here.
\<close>

definition fdiv :: "real \<Rightarrow> real \<Rightarrow> real option" where
  "fdiv a b = (if b = 0 then None else Some (a / b))"

text \<open>
  OpenCV's \<^verbatim>\<open>norm(a, b, CV_L2)\<close> on two arrays of 2D points: the square root of the sum
  of the squared coordinate differences. It raises an exception when the arrays differ
  in size.
\<close>

definition norm_L2 :: "Point2f list \<Rightarrow> Point2f list \<Rightarrow> error + real" where
  "norm_L2 a b =
     (if length a \<noteq> length b then Inl CvException
      else Inr (sqrt (\<Sum>(p, q)\<leftarrow>zip a b. (x2 p - x2 q)\<^sup>2 + (y2 p - y2 q)\<^sup>2)))"

text \<open>
  The loop of \<^verbatim>\<open>computeReprojectionErrors\<close>, on the list of image indices still to
  visit; the accumulator is \<^verbatim>\<open>inCal.reprojErrs\<close>, \<^verbatim>\<open>totalErr\<close> and \<^verbatim>\<open>totalPoints\<close>.
  OpenCV's \<^verbatim>\<open>projectPoints\<close> is outside the program and is the argument \<open>projectPoints\<close>.
  The \<^verbatim>\<open>int\<close> counters are unbounded integers, and the cast of the per-image error to
  \<^verbatim>\<open>float\<close> is the identity.
  \<^verbatim>\<open>
      for( i = 0; i < (int)inCal.objectPoints.size(); i++ )
      {
          projectPoints(Mat(inCal.objectPoints[i]), inCal.rvecs[i], inCal.tvecs[i],
                        inCal.cameraMatrix, inCal.distCoeffs, imagePoints2);
          err = norm(Mat(inCal.imagePoints[i]), Mat(imagePoints2), CV_L2);
          int n = (int)inCal.objectPoints[i].size();
          inCal.reprojErrs[i] = (float)std::sqrt(err*err/n);
          totalErr += err*err;
          totalPoints += n;
      }
  \<close>
\<close>

fun computeReprojectionErrors_loop ::
  "(Point3f list \<Rightarrow> Mat \<Rightarrow> Mat \<Rightarrow> Mat \<Rightarrow> Mat \<Rightarrow> Point2f list) \<Rightarrow> intrinsicCalibration \<Rightarrow>
   nat list \<Rightarrow> real option list \<times> real \<times> int \<Rightarrow>
   error + (real option list \<times> real \<times> int)" where
  "computeReprojectionErrors_loop projectPoints inCal [] acc = Inr acc"
| "computeReprojectionErrors_loop projectPoints inCal (i # is) (errs, totalErr, totalPoints) =
     (case vec_at (objectPoints inCal) i of Inl e \<Rightarrow> Inl e | Inr oPoints \<Rightarrow>
     (case vec_at (rvecs inCal) i of Inl e \<Rightarrow> Inl e | Inr rvec \<Rightarrow>
     (case vec_at (tvecs inCal) i of Inl e \<Rightarrow> Inl e | Inr tvec \<Rightarrow>
     (case vec_at (imagePoints inCal) i of Inl e \<Rightarrow> Inl e | Inr iPoints \<Rightarrow>
     (case norm_L2 iPoints
             (projectPoints oPoints rvec tvec (cameraMatrix inCal) (distCoeffs inCal)) of
        Inl e \<Rightarrow> Inl e
      | Inr err \<Rightarrow>
          (let n = int (length oPoints) in
           computeReprojectionErrors_loop projectPoints inCal is
             (errs[i := map_option sqrt (fdiv (err * err) (real_of_int n))],
              totalErr + err * err,
              totalPoints + n)))))))"

text \<open>
  \<^verbatim>\<open>computeReprojectionErrors\<close> resizes \<^verbatim>\<open>inCal.reprojErrs\<close>, runs the loop and returns
  \<^verbatim>\<open>std::sqrt(totalErr/totalPoints)\<close>; the result here is the calibration with its new
  \<^verbatim>\<open>reprojErrs\<close> and the returned value.
\<close>

definition computeReprojectionErrors ::
  "(Point3f list \<Rightarrow> Mat \<Rightarrow> Mat \<Rightarrow> Mat \<Rightarrow> Mat \<Rightarrow> Point2f list) \<Rightarrow> intrinsicCalibration \<Rightarrow>
   error + (intrinsicCalibration \<times> real option)" where
  "computeReprojectionErrors projectPoints inCal =
     (case computeReprojectionErrors_loop projectPoints inCal
             [0..<length (objectPoints inCal)]
             (resize (reprojErrs inCal) (length (objectPoints inCal)) (Some 0), 0, 0) of
        Inl e \<Rightarrow> Inl e
      | Inr (errs, totalErr, totalPoints) \<Rightarrow>
          Inr (inCal\<lparr>reprojErrs := errs\<rparr>,
               map_option sqrt (fdiv totalErr (real_of_int totalPoints))))"

text \<open>
  The summed squared residuals of one image, in the words of the specification: the
  squared distances between the observed points and the reprojected ones, added up.
\<close>

definition sumSquaredError :: "Point2f list \<Rightarrow> Point2f list \<Rightarrow> real" where
  "sumSquaredError observed reprojected =
     (\<Sum>k\<leftarrow>[0..<length observed].
        (x2 (observed ! k) - x2 (reprojected ! k))\<^sup>2 +
        (y2 (observed ! k) - y2 (reprojected ! k))\<^sup>2)"

text \<open>The reprojection of image \<open>i\<close>, as the loop asks \<^verbatim>\<open>projectPoints\<close> for it.\<close>

definition reprojected ::
  "(Point3f list \<Rightarrow> Mat \<Rightarrow> Mat \<Rightarrow> Mat \<Rightarrow> Mat \<Rightarrow> Point2f list) \<Rightarrow> intrinsicCalibration \<Rightarrow>
   nat \<Rightarrow> Point2f list" where
  "reprojected projectPoints inCal i =
     projectPoints (objectPoints inCal ! i) (rvecs inCal ! i) (tvecs inCal ! i)
       (cameraMatrix inCal) (distCoeffs inCal)"

section \<open>Intrinsic and stereo calibration\<close>

text \<open>
  \<^verbatim>\<open>Mat::eye(rows, cols, CV_64F)\<close> and \<^verbatim>\<open>Mat::zeros(rows, cols, CV_64F)\<close>.
\<close>

definition Mat_eye :: "nat \<Rightarrow> nat \<Rightarrow> Mat" where
  "Mat_eye rows cols = map (\<lambda>i. map (\<lambda>j. if i = j then 1 else 0) [0..<cols]) [0..<rows]"

definition Mat_zeros :: "nat \<Rightarrow> nat \<Rightarrow> Mat" where
  "Mat_zeros rows cols = replicate rows (replicate cols 0)"

text \<open>
  OpenCV's flag constants, from its header \<^verbatim>\<open>calib3d.hpp\<close> (not part of the program).
\<close>

definition CV_CALIB_USE_INTRINSIC_GUESS :: "32 word" where
  "CV_CALIB_USE_INTRINSIC_GUESS = 1"

definition CV_CALIB_FIX_INTRINSIC :: "32 word" where
  "CV_CALIB_FIX_INTRINSIC = 256"

text \<open>
  The arguments of one call of OpenCV's \<^verbatim>\<open>calibrateCamera\<close>: the points, the image
  size, the camera matrix and distortion coefficients it starts from, and the flags.
\<close>

record calibrateCamera_call =
  cc_objectPoints :: "Point3f list list"
  cc_imagePoints :: "Point2f list list"
  cc_imageSize :: "int \<times> int"
  cc_cameraMatrix :: Mat
  cc_distCoeffs :: Mat
  cc_flags :: "32 word"

text \<open>
  The call that \<^verbatim>\<open>runIntrinsicCalibration\<close> makes:
  \<^verbatim>\<open>
      if (s.useIntrinsicInput)
      {
          inCal.cameraMatrix = s.intrinsicInput.cameraMatrix;
          inCal.distCoeffs = s.intrinsicInput.distCoeffs;
          calibrateCamera(inCal.objectPoints, inCal.imagePoints, s.imageSize,
                          inCal.cameraMatrix, inCal.distCoeffs,
                          inCal.rvecs, inCal.tvecs, s.flag | CV_CALIB_USE_INTRINSIC_GUESS);
      } else {
          inCal.cameraMatrix = Mat::eye(3, 3, CV_64F);
          inCal.distCoeffs = Mat::zeros(8, 1, CV_64F);
          calibrateCamera(inCal.objectPoints, inCal.imagePoints, s.imageSize,
                          inCal.cameraMatrix, inCal.distCoeffs,
                          inCal.rvecs, inCal.tvecs, s.flag);
      }
  \<close>
\<close>

definition runIntrinsicCalibration_call ::
  "Settings \<Rightarrow> intrinsicCalibration \<Rightarrow> calibrateCamera_call" where
  "runIntrinsicCalibration_call s inCal =
     (if useIntrinsicInput s then
        \<lparr>cc_objectPoints = objectPoints inCal, cc_imagePoints = imagePoints inCal,
         cc_imageSize = imageSize s,
         cc_cameraMatrix = cameraMatrix (intrinsicInput s),
         cc_distCoeffs = distCoeffs (intrinsicInput s),
         cc_flags = flag s OR CV_CALIB_USE_INTRINSIC_GUESS\<rparr>
      else
        \<lparr>cc_objectPoints = objectPoints inCal, cc_imagePoints = imagePoints inCal,
         cc_imageSize = imageSize s,
         cc_cameraMatrix = Mat_eye 3 3,
         cc_distCoeffs = Mat_zeros 8 1,
         cc_flags = flag s\<rparr>)"

text \<open>
  \<^verbatim>\<open>runIntrinsicCalibration\<close>. The solver \<open>calibrateCamera\<close> maps the call to the camera
  matrix, the distortion coefficients and the rotation and translation vectors it
  writes back; \<open>checkRange\<close> and \<open>projectPoints\<close> are OpenCV's as well.
  \<^verbatim>\<open>
      bool ok = checkRange(inCal.cameraMatrix) && checkRange(inCal.distCoeffs);
      inCal.totalAvgErr = computeReprojectionErrors(inCal);
      return ok;
  \<close>
\<close>

definition runIntrinsicCalibration ::
  "(calibrateCamera_call \<Rightarrow> Mat \<times> Mat \<times> Mat list \<times> Mat list) \<Rightarrow> (Mat \<Rightarrow> bool) \<Rightarrow>
   (Point3f list \<Rightarrow> Mat \<Rightarrow> Mat \<Rightarrow> Mat \<Rightarrow> Mat \<Rightarrow> Point2f list) \<Rightarrow>
   Settings \<Rightarrow> intrinsicCalibration \<Rightarrow> error + (intrinsicCalibration \<times> bool)" where
  "runIntrinsicCalibration calibrateCamera checkRange projectPoints s inCal =
     (case calibrateCamera (runIntrinsicCalibration_call s inCal) of
        (cm, dc, rv, tv) \<Rightarrow>
          (let inCal1 = inCal\<lparr>cameraMatrix := cm, distCoeffs := dc, rvecs := rv, tvecs := tv\<rparr>;
               ok = (checkRange cm \<and> checkRange dc)
           in case computeReprojectionErrors projectPoints inCal1 of
                Inl e \<Rightarrow> Inl e
              | Inr (inCal2, avg) \<Rightarrow> Inr (inCal2\<lparr>totalAvgErr := avg\<rparr>, ok)))"

text \<open>
  The arguments of the call of OpenCV's \<^verbatim>\<open>stereoCalibrate\<close>: one list of object points,
  the image points of each camera, the intrinsics of each camera, the image size, the
  termination criterion and the flags.
\<close>

record stereoCalibrate_call =
  sc_objectPoints :: "Point3f list list"
  sc_imagePoints1 :: "Point2f list list"
  sc_imagePoints2 :: "Point2f list list"
  sc_cameraMatrix1 :: Mat
  sc_distCoeffs1 :: Mat
  sc_cameraMatrix2 :: Mat
  sc_distCoeffs2 :: Mat
  sc_imageSize :: "int \<times> int"
  sc_maxCount :: int
  sc_epsilon :: real
  sc_flags :: "32 word"

text \<open>
  The first step of \<^verbatim>\<open>runStereoCalibration\<close>. An assignment of a \<^verbatim>\<open>cv::Mat\<close> shares the
  matrix data with its source; the model keeps the values, which is all that the call
  of the solver reads.
  \<^verbatim>\<open>
      if (s.useIntrinsicInput)
      {
          inCal.cameraMatrix = s.intrinsicInput.cameraMatrix;
          inCal2.cameraMatrix = s.intrinsicInput.cameraMatrix;
          inCal.distCoeffs = s.intrinsicInput.distCoeffs;
          inCal2.distCoeffs = s.intrinsicInput.distCoeffs;
      }
  \<close>
\<close>

definition runStereoCalibration_intrinsics ::
  "Settings \<Rightarrow> intrinsicCalibration \<Rightarrow> intrinsicCalibration \<Rightarrow>
   intrinsicCalibration \<times> intrinsicCalibration" where
  "runStereoCalibration_intrinsics s inCal inCal2 =
     (if useIntrinsicInput s then
        (inCal\<lparr>cameraMatrix := cameraMatrix (intrinsicInput s),
                distCoeffs := distCoeffs (intrinsicInput s)\<rparr>,
         inCal2\<lparr>cameraMatrix := cameraMatrix (intrinsicInput s),
                 distCoeffs := distCoeffs (intrinsicInput s)\<rparr>)
      else (inCal, inCal2))"

text \<open>
  \<^verbatim>\<open>runStereoCalibration\<close> up to its call of the stereo solver: the two calibrations as
  they stand at the call, and the arguments of the call. Rectification and display,
  which follow, are left out.
  \<^verbatim>\<open>
      if (s.calibrationPattern != Settings::CHESSBOARD)       //aruco pattern
          getSharedPoints(inCal, inCal2);
      double err = stereoCalibrate(
                 inCal.objectPoints, inCal.imagePoints, inCal2.imagePoints,
                 inCal.cameraMatrix, inCal.distCoeffs,
                 inCal2.cameraMatrix, inCal2.distCoeffs,
                 s.imageSize, sterCal.R, sterCal.T, sterCal.E, sterCal.F,
                 TermCriteria(CV_TERMCRIT_ITER+CV_TERMCRIT_EPS, 1000, 1e-10),
                 CV_CALIB_FIX_INTRINSIC);
  \<close>
\<close>

definition runStereoCalibration_call ::
  "Settings \<Rightarrow> intrinsicCalibration \<Rightarrow> intrinsicCalibration \<Rightarrow>
   error + (intrinsicCalibration \<times> intrinsicCalibration \<times> stereoCalibrate_call)" where
  "runStereoCalibration_call s inCal inCal2 =
     (case runStereoCalibration_intrinsics s inCal inCal2 of
        (a, b) \<Rightarrow>
          (case (if calibrationPattern s \<noteq> CHESSBOARD then getSharedPoints a b
                 else Inr (a, b)) of
             Inl e \<Rightarrow> Inl e
           | Inr (a', b') \<Rightarrow>
               Inr (a', b',
                    \<lparr>sc_objectPoints = objectPoints a',
                     sc_imagePoints1 = imagePoints a',
                     sc_imagePoints2 = imagePoints b',
                     sc_cameraMatrix1 = cameraMatrix a',
                     sc_distCoeffs1 = distCoeffs a',
                     sc_cameraMatrix2 = cameraMatrix b',
                     sc_distCoeffs2 = distCoeffs b',
                     sc_imageSize = imageSize s,
                     sc_maxCount = 1000,
                     sc_epsilon = 1 / 10 ^ 10,
                     sc_flags = CV_CALIB_FIX_INTRINSIC\<rparr>)))"

section \<open>Example inputs\<close>

text \<open>
  Two cameras' collections for one image: the first camera sees the unified points
  1, 2 and 3, the second the points 2, 3 and 4.
\<close>

definition example_inCal :: intrinsicCalibration where
  "example_inCal =
     \<lparr>cameraMatrix = [], distCoeffs = [], rvecs = [], tvecs = [],
      imagePoints = [[Point2f 10 10, Point2f 20 10, Point2f 30 10]],
      objectPoints = [[Point3f 1 8 0, Point3f 2 8 0, Point3f 3 8 0]],
      reprojErrs = [], totalAvgErr = Some 0\<rparr>"

definition example_inCal2 :: intrinsicCalibration where
  "example_inCal2 =
     \<lparr>cameraMatrix = [], distCoeffs = [], rvecs = [], tvecs = [],
      imagePoints = [[Point2f 21 11, Point2f 31 11, Point2f 41 11]],
      objectPoints = [[Point3f 2 8 0, Point3f 3 8 0, Point3f 4 8 0]],
      reprojErrs = [], totalAvgErr = Some 0\<rparr>"

text \<open>
  A marker map with one marker, a square of side 125 at the map's origin, and the
  settings of a stereo run on a box rig of three such maps with a prior.
\<close>

definition example_map :: "int \<Rightarrow> MarkerMap" where
  "example_map mid =
     [\<lparr>info_id = mid,
       info_points = [Point3f 0 0 0, Point3f 125 0 0, Point3f 125 125 0, Point3f 0 125 0]\<rparr>]"

definition example_prior :: intrinsicCalibration where
  "example_prior =
     \<lparr>cameraMatrix = [[800, 0, 320], [0, 800, 240], [0, 0, 1]],
      distCoeffs = [[1 / 10], [0], [0], [0], [0]],
      rvecs = [], tvecs = [], imagePoints = [], objectPoints = [],
      reprojErrs = [], totalAvgErr = Some 0\<rparr>"

definition example_settings :: Settings where
  "example_settings =
     \<lparr>mode = STEREO, calibrationPattern = ARUCO_BOX,
      boardSize_width = 3, boardSize_height = 2, squareSize = 25,
      configList = [example_map 7, example_map 8, example_map 9],
      planeList = [''XY'', ''YZ'', ''XZ''],
      nConfigs = 3, nImages = 2,
      intrinsicInput = example_prior, useIntrinsicInput = True,
      flag = 0, imageSize = (640, 480)\<rparr>"

text \<open>
  A detector that finds, whatever the dictionary, the marker 7 and a marker 5 that no
  map of the example holds; and a detector that finds nothing.
\<close>

definition example_detect :: "MarkerMap \<Rightarrow> Marker list" where
  "example_detect cfg =
     [\<lparr>marker_id = 5,
       marker_corners = [Point2f 1 1, Point2f 2 1, Point2f 2 2, Point2f 1 2]\<rparr>,
      \<lparr>marker_id = 7,
       marker_corners = [Point2f 100 100, Point2f 200 100, Point2f 200 200, Point2f 100 200]\<rparr>]"

definition example_detect_nothing :: "MarkerMap \<Rightarrow> Marker list" where
  "example_detect_nothing cfg = []"

text \<open>
  A calibration of two images, with one and two points, and a projection (standing for
  OpenCV's) that scales the first two coordinates by ten: the observed point of the
  first image is off by two pixels, those of the second image are exact.
\<close>

definition example_projectPoints ::
  "Point3f list \<Rightarrow> Mat \<Rightarrow> Mat \<Rightarrow> Mat \<Rightarrow> Mat \<Rightarrow> Point2f list" where
  "example_projectPoints oPoints rvec tvec cm dc =
     map (\<lambda>p. Point2f (10 * x3 p) (10 * y3 p)) oPoints"

definition example_solved :: intrinsicCalibration where
  "example_solved =
     \<lparr>cameraMatrix = [[800, 0, 320], [0, 800, 240], [0, 0, 1]],
      distCoeffs = [[0], [0], [0], [0], [0]],
      rvecs = [[[0], [0], [0]], [[0], [0], [0]]],
      tvecs = [[[0], [0], [1]], [[0], [0], [1]]],
      imagePoints = [[Point2f 12 10], [Point2f 20 20, Point2f 30 30]],
      objectPoints = [[Point3f 1 1 0], [Point3f 2 2 0, Point3f 3 3 0]],
      reprojErrs = [], totalAvgErr = Some 0\<rparr>"



text \<open>
  A stand-in for OpenCV's solver that returns the intrinsics it was started from, with
  one rotation and one translation vector per image.
\<close>

definition example_calibrateCamera ::
  "calibrateCamera_call \<Rightarrow> Mat \<times> Mat \<times> Mat list \<times> Mat list" where
  "example_calibrateCamera call =
     (cc_cameraMatrix call, cc_distCoeffs call,
      map (\<lambda>ps. [[0], [0], [0]]) (cc_objectPoints call),
      map (\<lambda>ps. [[0], [0], [1]]) (cc_objectPoints call))"

text \<open>
  The settings of a stereo run on a 3x2 chessboard, and the six corners of a found board.
\<close>

definition example_chessboard :: Settings where
  "example_chessboard = example_settings\<lparr>calibrationPattern := CHESSBOARD\<rparr>"

definition example_corners :: "Point2f list" where
  "example_corners =
     [Point2f 1 1, Point2f 2 1, Point2f 3 1, Point2f 1 2, Point2f 2 2, Point2f 3 2]"

section \<open>The scan for a shared point\<close>

lemma findShared_le: "findShared p qs \<le> length qs"
  by (induction qs) auto

lemma findShared_eq_length: "findShared p qs = length qs \<longleftrightarrow> p \<notin> set qs"
proof (induction qs)
  case Nil
  show ?case by simp
next
  case (Cons q qs)
  have "findShared p qs \<le> length qs" by (rule findShared_le)
  with Cons show ?case by auto
qed

lemma findShared_lt: "p \<in> set qs \<Longrightarrow> findShared p qs < length qs"
  using findShared_le [of p qs] findShared_eq_length [of p qs] by linarith

lemma findShared_nth: "p \<in> set qs \<Longrightarrow> qs ! findShared p qs = p"
  by (induction qs) auto

lemma findShared_first: "k < findShared p qs \<Longrightarrow> qs ! k \<noteq> p"
proof (induction qs arbitrary: k)
  case Nil
  then show ?case by simp
next
  case (Cons q qs)
  then show ?case by (cases k) (auto split: if_splits)
qed

lemma findShared_distinct: "distinct qs \<Longrightarrow> k < length qs \<Longrightarrow> findShared (qs ! k) qs = k"
proof (induction qs arbitrary: k)
  case Nil
  then show ?case by simp
next
  case (Cons q qs)
  then show ?case by (cases k) auto
qed

lemma scan_obj:
  "getSharedPoints_scan ps j iP oP2 iP2 (so, si, si2) = Inr (so', si', si2') \<Longrightarrow>
   so' = so @ filter (\<lambda>p. p \<in> set oP2) ps"
proof (induction ps arbitrary: j so si si2)
  case Nil
  then show ?case by simp
next
  case (Cons p ps)
  from Cons.prems show ?case
    by (auto simp: Let_def findShared_eq_length split: if_splits sum.splits dest!: Cons.IH)
qed

lemma scan_img2:
  "getSharedPoints_scan ps j iP oP2 iP2 (so, si, si2) = Inr (so', si', si2') \<Longrightarrow>
   si2' = si2 @ map (\<lambda>p. iP2 ! findShared p oP2) (filter (\<lambda>p. p \<in> set oP2) ps)"
proof (induction ps arbitrary: j so si si2)
  case Nil
  then show ?case by simp
next
  case (Cons p ps)
  from Cons.prems show ?case
    by (auto simp: Let_def findShared_eq_length vec_at_def split: if_splits sum.splits dest!: Cons.IH)
qed

lemma scan_img:
  "getSharedPoints_scan ps j iP oP2 iP2 (so, si, si2) = Inr (so', si', si2') \<Longrightarrow>
   si' = si @ map snd (filter (\<lambda>(p, ip). p \<in> set oP2) (zip ps (drop j iP)))"
proof (induction ps arbitrary: j so si si2)
  case Nil
  then show ?case by simp
next
  case (Cons p ps)
  show ?case
  proof (cases "j < length iP")
    case True
    then have d: "drop j iP = iP ! j # drop (Suc j) iP"
      by (simp add: Cons_nth_drop_Suc)
    from Cons.prems show ?thesis unfolding d
      by (auto simp: Let_def findShared_eq_length vec_at_def split: if_splits sum.splits dest!: Cons.IH)
  next
    case False
    then have d: "drop j iP = []" "drop (Suc j) iP = []" by simp_all
    from Cons.prems False show ?thesis unfolding d
      by (auto simp: Let_def findShared_eq_length vec_at_def split: if_splits sum.splits dest!: Cons.IH)
  qed
qed

lemma scan_total:
  "j + length ps \<le> length iP \<Longrightarrow> length oP2 \<le> length iP2 \<Longrightarrow>
   \<exists>r. getSharedPoints_scan ps j iP oP2 iP2 (so, si, si2) = Inr r"
proof (induction ps arbitrary: j so si si2)
  case Nil
  then show ?case by simp
next
  case (Cons p ps)
  have "findShared p oP2 \<le> length oP2" by (rule findShared_le)
  with Cons.prems have "findShared p oP2 \<noteq> length oP2 \<Longrightarrow> findShared p oP2 < length iP2"
    by linarith
  moreover from Cons.prems have "j < length iP" "Suc j + length ps \<le> length iP" by simp_all
  ultimately show ?case using Cons.IH [of "Suc j"] Cons.prems(2)
    by (auto simp: Let_def vec_at_def)
qed


lemma loop_Cons_elim:
  assumes "getSharedPoints_loop (i # is) a b = Inr r"
  obtains so si si2 where
    "i < length (objectPoints a)" "i < length (objectPoints b)"
    "i < length (imagePoints a)" "i < length (imagePoints b)"
    "getSharedPoints_image (objectPoints a ! i) (imagePoints a ! i)
       (objectPoints b ! i) (imagePoints b ! i) = Inr (so, si, si2)"
    "getSharedPoints_loop is
       (a\<lparr>objectPoints := (objectPoints a)[i := so], imagePoints := (imagePoints a)[i := si]\<rparr>)
       (b\<lparr>objectPoints := (objectPoints b)[i := so], imagePoints := (imagePoints b)[i := si2]\<rparr>)
     = Inr r"
  using assms by (auto simp: vec_at_def split: if_splits sum.splits)

lemma loop_lengths:
  "getSharedPoints_loop is a b = Inr (a', b') \<Longrightarrow>
   length (objectPoints a') = length (objectPoints a) \<and>
   length (imagePoints a') = length (imagePoints a) \<and>
   length (objectPoints b') = length (objectPoints b) \<and>
   length (imagePoints b') = length (imagePoints b)"
proof (induction "is" arbitrary: a b)
  case Nil
  then show ?case by simp
next
  case (Cons i "is")
  from Cons.prems show ?case
    by (elim loop_Cons_elim) (drule Cons.IH, simp)
qed

lemma loop_other:
  "getSharedPoints_loop is a b = Inr (a', b') \<Longrightarrow> i \<notin> set is \<Longrightarrow>
   objectPoints a' ! i = objectPoints a ! i \<and> imagePoints a' ! i = imagePoints a ! i \<and>
   objectPoints b' ! i = objectPoints b ! i \<and> imagePoints b' ! i = imagePoints b ! i"
proof (induction "is" arbitrary: a b)
  case Nil
  then show ?case by simp
next
  case (Cons k "is")
  from Cons.prems(2) have ne: "k \<noteq> i" and notin: "i \<notin> set is" by auto
  from Cons.prems(1) show ?case
  proof (elim loop_Cons_elim)
    fix so si si2
    assume "getSharedPoints_loop is
       (a\<lparr>objectPoints := (objectPoints a)[k := so], imagePoints := (imagePoints a)[k := si]\<rparr>)
       (b\<lparr>objectPoints := (objectPoints b)[k := so], imagePoints := (imagePoints b)[k := si2]\<rparr>)
     = Inr (a', b')"
    from Cons.IH [OF this notin] ne show ?thesis by simp
  qed
qed

lemma loop_more:
  "getSharedPoints_loop is a b = Inr (a', b') \<Longrightarrow>
   a' = a\<lparr>objectPoints := objectPoints a', imagePoints := imagePoints a'\<rparr> \<and>
   b' = b\<lparr>objectPoints := objectPoints b', imagePoints := imagePoints b'\<rparr>"
proof (induction "is" arbitrary: a b)
  case Nil
  then show ?case by simp
next
  case (Cons i "is")
  from Cons.prems show ?case
  proof (elim loop_Cons_elim)
    fix so si si2
    assume "getSharedPoints_loop is
       (a\<lparr>objectPoints := (objectPoints a)[i := so], imagePoints := (imagePoints a)[i := si]\<rparr>)
       (b\<lparr>objectPoints := (objectPoints b)[i := so], imagePoints := (imagePoints b)[i := si2]\<rparr>)
     = Inr (a', b')"
    from Cons.IH [OF this] show ?thesis by simp
  qed
qed

lemma loop_visited:
  "getSharedPoints_loop is a b = Inr (a', b') \<Longrightarrow> distinct is \<Longrightarrow> i \<in> set is \<Longrightarrow>
   i < length (objectPoints a) \<and> i < length (objectPoints b) \<and>
   i < length (imagePoints a) \<and> i < length (imagePoints b) \<and>
   getSharedPoints_image (objectPoints a ! i) (imagePoints a ! i)
       (objectPoints b ! i) (imagePoints b ! i)
     = Inr (objectPoints a' ! i, imagePoints a' ! i, imagePoints b' ! i) \<and>
   objectPoints b' ! i = objectPoints a' ! i"
proof (induction "is" arbitrary: a b)
  case Nil
  then show ?case by simp
next
  case (Cons k "is")
  from Cons.prems(2) have dis: "distinct is" and knotin: "k \<notin> set is" by auto
  from Cons.prems(1) show ?case
  proof (elim loop_Cons_elim)
    fix so si si2
    let ?a1 = "a\<lparr>objectPoints := (objectPoints a)[k := so], imagePoints := (imagePoints a)[k := si]\<rparr>"
    let ?b1 = "b\<lparr>objectPoints := (objectPoints b)[k := so], imagePoints := (imagePoints b)[k := si2]\<rparr>"
    assume lens: "k < length (objectPoints a)" "k < length (objectPoints b)"
      "k < length (imagePoints a)" "k < length (imagePoints b)"
    assume img: "getSharedPoints_image (objectPoints a ! k) (imagePoints a ! k)
       (objectPoints b ! k) (imagePoints b ! k) = Inr (so, si, si2)"
    assume rest: "getSharedPoints_loop is ?a1 ?b1 = Inr (a', b')"
    show ?thesis
    proof (cases "i = k")
      case True
      from loop_other [OF rest knotin] lens img True show ?thesis by simp
    next
      case False
      with Cons.prems(3) have "i \<in> set is" by simp
      from Cons.IH [OF rest dis this] False show ?thesis by simp
    qed
  qed
qed

lemma loop_total:
  "distinct is \<Longrightarrow>
   (\<forall>i\<in>set is. i < length (objectPoints a) \<and> i < length (objectPoints b) \<and>
      i < length (imagePoints a) \<and> i < length (imagePoints b) \<and>
      (\<exists>r. getSharedPoints_image (objectPoints a ! i) (imagePoints a ! i)
              (objectPoints b ! i) (imagePoints b ! i) = Inr r)) \<Longrightarrow>
   \<exists>r. getSharedPoints_loop is a b = Inr r"
proof (induction "is" arbitrary: a b)
  case Nil
  then show ?case by simp
next
  case (Cons k "is")
  from Cons.prems(1) have dis: "distinct is" and knotin: "k \<notin> set is" by auto
  from Cons.prems(2) obtain so si si2 where
    lens: "k < length (objectPoints a)" "k < length (objectPoints b)"
      "k < length (imagePoints a)" "k < length (imagePoints b)"
    and img: "getSharedPoints_image (objectPoints a ! k) (imagePoints a ! k)
       (objectPoints b ! k) (imagePoints b ! k) = Inr (so, si, si2)"
    by (auto; metis prod_cases3)
  let ?a1 = "a\<lparr>objectPoints := (objectPoints a)[k := so], imagePoints := (imagePoints a)[k := si]\<rparr>"
  let ?b1 = "b\<lparr>objectPoints := (objectPoints b)[k := so], imagePoints := (imagePoints b)[k := si2]\<rparr>"
  have "\<exists>r. getSharedPoints_loop is ?a1 ?b1 = Inr r"
  proof (rule Cons.IH [OF dis], intro ballI)
    fix i assume i: "i \<in> set is"
    with knotin have "i \<noteq> k" by auto
    with Cons.prems(2) i show "i < length (objectPoints ?a1) \<and> i < length (objectPoints ?b1) \<and>
      i < length (imagePoints ?a1) \<and> i < length (imagePoints ?b1) \<and>
      (\<exists>r. getSharedPoints_image (objectPoints ?a1 ! i) (imagePoints ?a1 ! i)
              (objectPoints ?b1 ! i) (imagePoints ?b1 ! i) = Inr r)"
      by simp
  qed
  with lens img show ?case by (simp add: vec_at_def)
qed


lemma scan_len:
  "getSharedPoints_scan ps j iP oP2 iP2 (so, si, si2) = Inr (so', si', si2') \<Longrightarrow>
   length si = length so \<Longrightarrow> length si2 = length so \<Longrightarrow>
   length si' = length so' \<and> length si2' = length so'"
proof (induction ps arbitrary: j so si si2)
  case Nil
  then show ?case by simp
next
  case (Cons p ps)
  from Cons.prems show ?case
    by (auto simp: Let_def split: if_splits sum.splits dest!: Cons.IH)
qed

lemma scan_zip:
  "getSharedPoints_scan ps j iP oP2 iP2 (so, si, si2) = Inr (so', si', si2') \<Longrightarrow>
   length si = length so \<Longrightarrow>
   zip so' si' = zip so si @ filter (\<lambda>(p, ip). p \<in> set oP2) (zip ps (drop j iP))"
proof (induction ps arbitrary: j so si si2)
  case Nil
  then show ?case by simp
next
  case (Cons p ps)
  show ?case
  proof (cases "j < length iP")
    case True
    then have d: "drop j iP = iP ! j # drop (Suc j) iP"
      by (simp add: Cons_nth_drop_Suc)
    from Cons.prems show ?thesis unfolding d
      by (auto simp: Let_def findShared_eq_length vec_at_def split: if_splits sum.splits dest!: Cons.IH)
  next
    case False
    then have d: "drop j iP = []" "drop (Suc j) iP = []" by simp_all
    from Cons.prems False show ?thesis unfolding d
      by (auto simp: Let_def findShared_eq_length vec_at_def split: if_splits sum.splits dest!: Cons.IH)
  qed
qed

lemma findShared_pair:
  assumes "p \<in> set oP2" "findShared p oP2 < length iP2"
  shows "(p, iP2 ! findShared p oP2) \<in> set (zip oP2 iP2)"
proof -
  let ?k = "findShared p oP2"
  have "?k < length oP2" using assms(1) by (rule findShared_lt)
  moreover have "oP2 ! ?k = p" using assms(1) by (rule findShared_nth)
  ultimately have "\<exists>i. (p, iP2 ! ?k) = (oP2 ! i, iP2 ! i) \<and> i < min (length oP2) (length iP2)"
    using assms(2) by (intro exI [of _ ?k]) simp
  then show ?thesis unfolding set_zip by blast
qed

lemma scan_zip2:
  "getSharedPoints_scan ps j iP oP2 iP2 (so, si, si2) = Inr (so', si', si2') \<Longrightarrow>
   length si2 = length so \<Longrightarrow>
   set (zip so' si2') \<subseteq> set (zip so si2) \<union> set (zip oP2 iP2)"
proof (induction ps arbitrary: j so si si2)
  case Nil
  then show ?case by simp
next
  case (Cons p ps)
  show ?case
  proof (cases "p \<in> set oP2")
    case False
    with Cons.prems show ?thesis
      by (auto simp: Let_def findShared_eq_length split: sum.splits dest!: Cons.IH)
  next
    case True
    let ?k = "findShared p oP2"
    from True have ne: "?k \<noteq> length oP2" by (simp add: findShared_eq_length)
    with Cons.prems(1) have k: "?k < length iP2" and j: "j < length iP"
      by (auto simp: Let_def vec_at_def split: if_splits sum.splits)
    with ne Cons.prems(1) have
      "getSharedPoints_scan ps (Suc j) iP oP2 iP2 (so @ [p], si @ [iP ! j], si2 @ [iP2 ! ?k])
       = Inr (so', si', si2')"
      by (simp add: Let_def vec_at_def)
    from Cons.IH [OF this] Cons.prems(2)
    have "set (zip so' si2') \<subseteq> set (zip (so @ [p]) (si2 @ [iP2 ! ?k])) \<union> set (zip oP2 iP2)"
      by simp
    moreover have "(p, iP2 ! ?k) \<in> set (zip oP2 iP2)"
      using True k by (rule findShared_pair)
    ultimately show ?thesis using Cons.prems(2) by auto
  qed
qed

lemma image_char:
  assumes "getSharedPoints_image oP iP oP2 iP2 = Inr (so, si, si2)"
  shows "so = filter (\<lambda>p. p \<in> set oP2) oP"
    and "si2 = map (\<lambda>p. iP2 ! findShared p oP2) so"
    and "length si = length so" and "length si2 = length so"
    and "zip so si = filter (\<lambda>(p, ip). p \<in> set oP2) (zip oP iP)"
    and "set (zip so si2) \<subseteq> set (zip oP2 iP2)"
proof -
  note a = assms [unfolded getSharedPoints_image_def]
  show so: "so = filter (\<lambda>p. p \<in> set oP2) oP" using scan_obj [OF a] by simp
  show "si2 = map (\<lambda>p. iP2 ! findShared p oP2) so" using scan_img2 [OF a] so by simp
  show "length si = length so" "length si2 = length so" using scan_len [OF a] by simp_all
  show "zip so si = filter (\<lambda>(p, ip). p \<in> set oP2) (zip oP iP)" using scan_zip [OF a] by simp
  show "set (zip so si2) \<subseteq> set (zip oP2 iP2)" using scan_zip2 [OF a] by simp
qed

lemma image_total:
  "length iP = length oP \<Longrightarrow> length iP2 = length oP2 \<Longrightarrow>
   \<exists>r. getSharedPoints_image oP iP oP2 iP2 = Inr r"
  unfolding getSharedPoints_image_def by (rule scan_total) simp_all

section \<open>Properties of \<^verbatim>\<open>getSharedPoints\<close>\<close>

lemma corr_inv_nth:
  "corr_inv c \<Longrightarrow> length (imagePoints c) = length (objectPoints c) \<and>
     (\<forall>i<length (objectPoints c). length (imagePoints c ! i) = length (objectPoints c ! i))"
  unfolding corr_inv_def by (auto simp: list_all2_conv_all_nth)

lemma getSharedPoints_total:
  assumes "corr_inv inCal" "corr_inv inCal2"
    and "length (objectPoints inCal) = length (objectPoints inCal2)"
  shows "\<exists>r. getSharedPoints inCal inCal2 = Inr r"
  unfolding getSharedPoints_def
proof (rule loop_total, simp, intro ballI)
  fix i assume "i \<in> set [0..<length (objectPoints inCal)]"
  then have i: "i < length (objectPoints inCal)" by simp
  with corr_inv_nth [OF assms(1)] corr_inv_nth [OF assms(2)] assms(3)
  have l: "i < length (objectPoints inCal2)" "i < length (imagePoints inCal)"
    "i < length (imagePoints inCal2)"
    "length (imagePoints inCal ! i) = length (objectPoints inCal ! i)"
    "length (imagePoints inCal2 ! i) = length (objectPoints inCal2 ! i)"
    by simp_all
  from image_total [OF l(4) l(5)] i l(1-3)
  show "i < length (objectPoints inCal) \<and> i < length (objectPoints inCal2) \<and>
      i < length (imagePoints inCal) \<and> i < length (imagePoints inCal2) \<and>
      (\<exists>r. getSharedPoints_image (objectPoints inCal ! i) (imagePoints inCal ! i)
              (objectPoints inCal2 ! i) (imagePoints inCal2 ! i) = Inr r)"
    by simp
qed

lemma getSharedPoints_image_at:
  assumes "getSharedPoints inCal inCal2 = Inr (A', B')" "i < length (objectPoints inCal)"
  shows "getSharedPoints_image (objectPoints inCal ! i) (imagePoints inCal ! i)
       (objectPoints inCal2 ! i) (imagePoints inCal2 ! i)
     = Inr (objectPoints A' ! i, imagePoints A' ! i, imagePoints B' ! i)"
    and "objectPoints B' ! i = objectPoints A' ! i"
  using loop_visited [OF assms(1) [unfolded getSharedPoints_def], of i] assms(2)
  by simp_all

text \<open>
  Claim C1. For two collections that keep the invariant and hold the same number of
  images, \<^verbatim>\<open>getSharedPoints\<close> returns, and for every image index the 3D points it
  leaves in the first camera's set are exactly those present in both input sets (the
  points of the first camera that occur in the second, in the first camera's order);
  the second camera's set gets the same 3D points; in both outputs the 2D points are
  as many as the 3D points; every output pair of the first camera is an input pair of
  the first camera, in order, and every output pair of the second camera is an input
  pair of the second camera.
\<close>

theorem getSharedPoints_shared:
  assumes "corr_inv inCal" "corr_inv inCal2"
    and "length (objectPoints inCal) = length (objectPoints inCal2)"
  shows "\<exists>A' B'. getSharedPoints inCal inCal2 = Inr (A', B') \<and>
     length (objectPoints A') = length (objectPoints inCal) \<and>
     length (imagePoints A') = length (imagePoints inCal) \<and>
     length (objectPoints B') = length (objectPoints inCal2) \<and>
     length (imagePoints B') = length (imagePoints inCal2) \<and>
     (\<forall>i<length (objectPoints inCal).
        set (objectPoints A' ! i) = set (objectPoints inCal ! i) \<inter> set (objectPoints inCal2 ! i) \<and>
        objectPoints A' ! i =
          filter (\<lambda>p. p \<in> set (objectPoints inCal2 ! i)) (objectPoints inCal ! i) \<and>
        objectPoints B' ! i = objectPoints A' ! i \<and>
        length (imagePoints A' ! i) = length (objectPoints A' ! i) \<and>
        length (imagePoints B' ! i) = length (objectPoints B' ! i) \<and>
        length (objectPoints A' ! i) = length (objectPoints B' ! i) \<and>
        zip (objectPoints A' ! i) (imagePoints A' ! i) =
          filter (\<lambda>(p, ip). p \<in> set (objectPoints inCal2 ! i))
            (zip (objectPoints inCal ! i) (imagePoints inCal ! i)) \<and>
        set (zip (objectPoints B' ! i) (imagePoints B' ! i)) \<subseteq>
          set (zip (objectPoints inCal2 ! i) (imagePoints inCal2 ! i)))"
proof -
  from getSharedPoints_total [OF assms] obtain A' B'
    where r: "getSharedPoints inCal inCal2 = Inr (A', B')" by (metis surj_pair)
  have "\<forall>i<length (objectPoints inCal).
        set (objectPoints A' ! i) = set (objectPoints inCal ! i) \<inter> set (objectPoints inCal2 ! i) \<and>
        objectPoints A' ! i =
          filter (\<lambda>p. p \<in> set (objectPoints inCal2 ! i)) (objectPoints inCal ! i) \<and>
        objectPoints B' ! i = objectPoints A' ! i \<and>
        length (imagePoints A' ! i) = length (objectPoints A' ! i) \<and>
        length (imagePoints B' ! i) = length (objectPoints B' ! i) \<and>
        length (objectPoints A' ! i) = length (objectPoints B' ! i) \<and>
        zip (objectPoints A' ! i) (imagePoints A' ! i) =
          filter (\<lambda>(p, ip). p \<in> set (objectPoints inCal2 ! i))
            (zip (objectPoints inCal ! i) (imagePoints inCal ! i)) \<and>
        set (zip (objectPoints B' ! i) (imagePoints B' ! i)) \<subseteq>
          set (zip (objectPoints inCal2 ! i) (imagePoints inCal2 ! i))"
  proof (intro allI impI)
    fix i assume i: "i < length (objectPoints inCal)"
    note img = getSharedPoints_image_at [OF r i]
    note c = image_char [OF img(1)]
    have "set (objectPoints A' ! i) = set (objectPoints inCal ! i) \<inter> set (objectPoints inCal2 ! i)"
      unfolding c(1) by auto
    with c img(2) show "set (objectPoints A' ! i) = set (objectPoints inCal ! i) \<inter> set (objectPoints inCal2 ! i) \<and>
        objectPoints A' ! i =
          filter (\<lambda>p. p \<in> set (objectPoints inCal2 ! i)) (objectPoints inCal ! i) \<and>
        objectPoints B' ! i = objectPoints A' ! i \<and>
        length (imagePoints A' ! i) = length (objectPoints A' ! i) \<and>
        length (imagePoints B' ! i) = length (objectPoints B' ! i) \<and>
        length (objectPoints A' ! i) = length (objectPoints B' ! i) \<and>
        zip (objectPoints A' ! i) (imagePoints A' ! i) =
          filter (\<lambda>(p, ip). p \<in> set (objectPoints inCal2 ! i))
            (zip (objectPoints inCal ! i) (imagePoints inCal ! i)) \<and>
        set (zip (objectPoints B' ! i) (imagePoints B' ! i)) \<subseteq>
          set (zip (objectPoints inCal2 ! i) (imagePoints inCal2 ! i))"
      by simp
  qed
  with r loop_lengths [OF r [unfolded getSharedPoints_def]] show ?thesis by blast
qed

theorem getSharedPoints_shared_witness:
  "corr_inv example_inCal \<and> corr_inv example_inCal2 \<and>
   length (objectPoints example_inCal) = length (objectPoints example_inCal2) \<and>
   (\<exists>A' B'. getSharedPoints example_inCal example_inCal2 = Inr (A', B') \<and>
      objectPoints A' ! 0 = [Point3f 2 8 0, Point3f 3 8 0] \<and>
      objectPoints B' ! 0 = [Point3f 2 8 0, Point3f 3 8 0] \<and>
      zip (objectPoints A' ! 0) (imagePoints A' ! 0) =
        [(Point3f 2 8 0, Point2f 20 10), (Point3f 3 8 0, Point2f 30 10)] \<and>
      length (imagePoints B' ! 0) = 2)"
proof -
  have h1: "corr_inv example_inCal" by (simp add: corr_inv_def example_inCal_def)
  have h2: "corr_inv example_inCal2" by (simp add: corr_inv_def example_inCal2_def)
  have h3: "length (objectPoints example_inCal) = length (objectPoints example_inCal2)"
    by (simp add: example_inCal_def example_inCal2_def)
  from getSharedPoints_shared [OF h1 h2 h3] obtain A' B' where
    r: "getSharedPoints example_inCal example_inCal2 = Inr (A', B')"
    and p: "\<forall>i<length (objectPoints example_inCal).
        set (objectPoints A' ! i) = set (objectPoints example_inCal ! i) \<inter> set (objectPoints example_inCal2 ! i) \<and>
        objectPoints A' ! i =
          filter (\<lambda>p. p \<in> set (objectPoints example_inCal2 ! i)) (objectPoints example_inCal ! i) \<and>
        objectPoints B' ! i = objectPoints A' ! i \<and>
        length (imagePoints A' ! i) = length (objectPoints A' ! i) \<and>
        length (imagePoints B' ! i) = length (objectPoints B' ! i) \<and>
        length (objectPoints A' ! i) = length (objectPoints B' ! i) \<and>
        zip (objectPoints A' ! i) (imagePoints A' ! i) =
          filter (\<lambda>(p, ip). p \<in> set (objectPoints example_inCal2 ! i))
            (zip (objectPoints example_inCal ! i) (imagePoints example_inCal ! i)) \<and>
        set (zip (objectPoints B' ! i) (imagePoints B' ! i)) \<subseteq>
          set (zip (objectPoints example_inCal2 ! i) (imagePoints example_inCal2 ! i))"
    by blast
  have pos: "0 < length (objectPoints example_inCal)" by (simp add: example_inCal_def)
  note p0' = p [rule_format, OF pos]
  note p0 = p0' [THEN conjunct2, THEN conjunct1] p0' [THEN conjunct2, THEN conjunct2, THEN conjunct1] p0' [THEN conjunct2, THEN conjunct2, THEN conjunct2, THEN conjunct2, THEN conjunct1] p0' [THEN conjunct2, THEN conjunct2, THEN conjunct2, THEN conjunct2, THEN conjunct2, THEN conjunct2, THEN conjunct1]
  have a: "objectPoints A' ! 0 = [Point3f 2 8 0, Point3f 3 8 0]"
    unfolding p0(1) by (simp add: example_inCal_def example_inCal2_def)
  have z: "zip (objectPoints A' ! 0) (imagePoints A' ! 0) =
        [(Point3f 2 8 0, Point2f 20 10), (Point3f 3 8 0, Point2f 30 10)]"
    unfolding p0(4) by (simp add: example_inCal_def example_inCal2_def)
  from h1 h2 h3 r a z p0(2,3) show ?thesis by simp
qed

lemma findShared_inj:
  "inj_on (\<lambda>p. findShared p qs) (set qs)"
proof (rule inj_onI)
  fix p q assume p: "p \<in> set qs" and q: "q \<in> set qs"
    and e: "findShared p qs = findShared q qs"
  from p have "p = qs ! findShared p qs" by (rule findShared_nth [symmetric])
  also from e have "\<dots> = qs ! findShared q qs" by (rule arg_cong)
  also from q have "\<dots> = q" by (rule findShared_nth)
  finally show "p = q" .
qed

text \<open>
  Claim C6, as the code has it. For every point the first camera keeps, the scan of the
  second camera's set starts at position 0 and stops at the first position holding an
  equal point: no earlier position holds one, and the second camera's 2D point is read
  at that position. The scan does not resume after the previous match. When the first
  camera's 3D points of the image are pairwise distinct, no position of the second
  camera's set is matched twice.
\<close>

theorem getSharedPoints_first_match:
  assumes "getSharedPoints inCal inCal2 = Inr (A', B')" and "i < length (objectPoints inCal)"
  shows "imagePoints B' ! i =
           map (\<lambda>p. imagePoints inCal2 ! i ! findShared p (objectPoints inCal2 ! i))
             (objectPoints A' ! i) \<and>
         (\<forall>p\<in>set (objectPoints A' ! i).
            findShared p (objectPoints inCal2 ! i) < length (objectPoints inCal2 ! i) \<and>
            objectPoints inCal2 ! i ! findShared p (objectPoints inCal2 ! i) = p \<and>
            (\<forall>k<findShared p (objectPoints inCal2 ! i). objectPoints inCal2 ! i ! k \<noteq> p)) \<and>
         (distinct (objectPoints inCal ! i) \<longrightarrow>
            distinct (map (\<lambda>p. findShared p (objectPoints inCal2 ! i)) (objectPoints A' ! i)))"
proof -
  let ?oP2 = "objectPoints inCal2 ! i"
  note img = getSharedPoints_image_at [OF assms]
  note c = image_char [OF img(1)]
  have sub: "set (objectPoints A' ! i) \<subseteq> set ?oP2" unfolding c(1) by auto
  have "\<forall>p\<in>set (objectPoints A' ! i).
            findShared p ?oP2 < length ?oP2 \<and> ?oP2 ! findShared p ?oP2 = p \<and>
            (\<forall>k<findShared p ?oP2. ?oP2 ! k \<noteq> p)"
  proof
    fix p assume "p \<in> set (objectPoints A' ! i)"
    with sub have "p \<in> set ?oP2" by auto
    then show "findShared p ?oP2 < length ?oP2 \<and> ?oP2 ! findShared p ?oP2 = p \<and>
            (\<forall>k<findShared p ?oP2. ?oP2 ! k \<noteq> p)"
      by (simp add: findShared_lt findShared_nth findShared_first)
  qed
  moreover have "distinct (map (\<lambda>p. findShared p ?oP2) (objectPoints A' ! i))"
    if d: "distinct (objectPoints inCal ! i)"
  proof -
    from d have "distinct (objectPoints A' ! i)" unfolding c(1) by simp
    moreover have "inj_on (\<lambda>p. findShared p ?oP2) (set (objectPoints A' ! i))"
      using findShared_inj sub by (rule inj_on_subset)
    ultimately show ?thesis by (simp add: distinct_map)
  qed
  moreover note c(2)
  ultimately show ?thesis by (intro conjI impI)
qed

text \<open>
  At the example, the two shared points are found at positions 0 and 1 of the second
  camera's set.
\<close>

theorem getSharedPoints_first_match_witness:
  "getSharedPoints example_inCal example_inCal2 =
     Inr (example_inCal\<lparr>imagePoints := [[Point2f 20 10, Point2f 30 10]],
                          objectPoints := [[Point3f 2 8 0, Point3f 3 8 0]]\<rparr>,
          example_inCal2\<lparr>imagePoints := [[Point2f 21 11, Point2f 31 11]],
                           objectPoints := [[Point3f 2 8 0, Point3f 3 8 0]]\<rparr>) \<and>
   (0::nat) < length (objectPoints example_inCal) \<and>
   distinct (objectPoints example_inCal ! 0) \<and>
   distinct (map (\<lambda>p. findShared p (objectPoints example_inCal2 ! 0))
     [Point3f 2 8 0, Point3f 3 8 0])"
proof -
  have r: "getSharedPoints example_inCal example_inCal2 =
     Inr (example_inCal\<lparr>imagePoints := [[Point2f 20 10, Point2f 30 10]],
                          objectPoints := [[Point3f 2 8 0, Point3f 3 8 0]]\<rparr>,
          example_inCal2\<lparr>imagePoints := [[Point2f 21 11, Point2f 31 11]],
                           objectPoints := [[Point3f 2 8 0, Point3f 3 8 0]]\<rparr>)"
    by (simp add: getSharedPoints_def getSharedPoints_image_def example_inCal_def
        example_inCal2_def vec_at_def)
  have i: "(0::nat) < length (objectPoints example_inCal)" by (simp add: example_inCal_def)
  have d: "distinct (objectPoints example_inCal ! 0)" by (simp add: example_inCal_def)
  from getSharedPoints_first_match [OF r i] d
  have "distinct (map (\<lambda>p. findShared p (objectPoints example_inCal2 ! 0))
     [Point3f 2 8 0, Point3f 3 8 0])"
    by (simp add: example_inCal_def)
  with r i d show ?thesis by simp
qed

text \<open>
  Claim C6 as stated fails: a 3D point that occurs twice in the first camera's set is
  matched twice to the single equal point of the second camera's set, whose 2D point
  then occurs twice in the output.
\<close>

theorem getSharedPoints_rematch_counterexample:
  "getSharedPoints
     (example_inCal\<lparr>imagePoints := [[Point2f 20 10, Point2f 25 10]],
                    objectPoints := [[Point3f 2 8 0, Point3f 2 8 0]]\<rparr>)
     (example_inCal2\<lparr>imagePoints := [[Point2f 21 11]],
                     objectPoints := [[Point3f 2 8 0]]\<rparr>)
   = Inr (example_inCal\<lparr>imagePoints := [[Point2f 20 10, Point2f 25 10]],
                        objectPoints := [[Point3f 2 8 0, Point3f 2 8 0]]\<rparr>,
          example_inCal2\<lparr>imagePoints := [[Point2f 21 11, Point2f 21 11]],
                         objectPoints := [[Point3f 2 8 0, Point3f 2 8 0]]\<rparr>) \<and>
   map (\<lambda>p. findShared p [Point3f 2 8 0]) [Point3f 2 8 0, Point3f 2 8 0] = [0, 0]"
  by (simp add: getSharedPoints_def getSharedPoints_image_def example_inCal_def
      example_inCal2_def vec_at_def)

lemma filter_self: "filter (\<lambda>p. p \<in> set xs) xs = xs"
  by (simp add: filter_id_conv)

lemma filter_zip_self:
  "filter (\<lambda>(p, ip). p \<in> set xs) (zip xs ys) = zip xs ys"
  by (auto simp: filter_id_conv dest: set_zip_leftD)

lemma map_findShared_self:
  assumes "distinct xs" "length ys = length xs"
  shows "map (\<lambda>p. ys ! findShared p xs) xs = ys"
proof (rule nth_equalityI)
  show "length (map (\<lambda>p. ys ! findShared p xs) xs) = length ys" using assms(2) by simp
next
  fix k assume "k < length (map (\<lambda>p. ys ! findShared p xs) xs)"
  then have "k < length xs" by simp
  with assms(1) show "map (\<lambda>p. ys ! findShared p xs) xs ! k = ys ! k"
    by (simp add: findShared_distinct)
qed

text \<open>
  Claim C7, as the code has it. For a collection that keeps the invariant and whose 3D
  points are pairwise distinct within every image, \<^verbatim>\<open>getSharedPoints\<close> on two copies of
  it returns both copies unchanged.
\<close>

theorem getSharedPoints_same:
  assumes "corr_inv C" and "\<forall>ops\<in>set (objectPoints C). distinct ops"
  shows "getSharedPoints C C = Inr (C, C)"
proof -
  have len: "length (objectPoints C) = length (objectPoints C)" ..
  from getSharedPoints_total [OF assms(1) assms(1) len] obtain A' B'
    where r: "getSharedPoints C C = Inr (A', B')" by (metis surj_pair)
  note l = loop_lengths [OF r [unfolded getSharedPoints_def]]
  note m = loop_more [OF r [unfolded getSharedPoints_def]]
  note inv = corr_inv_nth [OF assms(1)]
  have each: "objectPoints A' ! i = objectPoints C ! i \<and> imagePoints A' ! i = imagePoints C ! i \<and>
      objectPoints B' ! i = objectPoints C ! i \<and> imagePoints B' ! i = imagePoints C ! i"
    if i: "i < length (objectPoints C)" for i
  proof -
    note img = getSharedPoints_image_at [OF r i]
    note c = image_char [OF img(1)]
    from inv i have li: "length (imagePoints C ! i) = length (objectPoints C ! i)" by simp
    from assms(2) i have d: "distinct (objectPoints C ! i)" by simp
    have o: "objectPoints A' ! i = objectPoints C ! i" using c(1) by (simp add: filter_self)
    have "zip (objectPoints A' ! i) (imagePoints A' ! i) = zip (objectPoints C ! i) (imagePoints C ! i)"
      using c(5) by (simp add: filter_zip_self)
    then have "map snd (zip (objectPoints A' ! i) (imagePoints A' ! i)) =
               map snd (zip (objectPoints C ! i) (imagePoints C ! i))" by simp
    with c(3) li have ia: "imagePoints A' ! i = imagePoints C ! i" by simp
    have ib: "imagePoints B' ! i = imagePoints C ! i"
      using c(2) o map_findShared_self [OF d li] by simp
    from o ia ib img(2) show ?thesis by simp
  qed
  have "objectPoints A' = objectPoints C"
    by (rule nth_equalityI) (simp_all add: l each)
  moreover have "imagePoints A' = imagePoints C"
    by (rule nth_equalityI) (simp_all add: l inv each)
  moreover have "objectPoints B' = objectPoints C"
    by (rule nth_equalityI) (simp_all add: l each)
  moreover have "imagePoints B' = imagePoints C"
    by (rule nth_equalityI) (simp_all add: l inv each)
  ultimately have "objectPoints A' = objectPoints C" "imagePoints A' = imagePoints C"
    "objectPoints B' = objectPoints C" "imagePoints B' = imagePoints C"
    by simp_all
  with m have "A' = C" "B' = C" by simp_all
  with r show ?thesis by simp
qed

theorem getSharedPoints_same_witness:
  "corr_inv example_inCal \<and> distinct (objectPoints example_inCal ! 0) \<and>
   length (objectPoints example_inCal) = 1 \<and>
   getSharedPoints example_inCal example_inCal = Inr (example_inCal, example_inCal)"
proof -
  have h1: "corr_inv example_inCal" by (simp add: corr_inv_def example_inCal_def)
  have h2: "\<forall>ops\<in>set (objectPoints example_inCal). distinct ops"
    by (simp add: example_inCal_def)
  have h3: "distinct (objectPoints example_inCal ! 0)" "length (objectPoints example_inCal) = 1"
    by (simp_all add: example_inCal_def)
  from h1 h3 getSharedPoints_same [OF h1 h2] show ?thesis by simp
qed

text \<open>
  Claim C7 as stated fails: when a 3D point occurs twice in an image, the second copy
  comes back with the 2D point of the first occurrence at both positions.
\<close>

theorem getSharedPoints_same_counterexample:
  "getSharedPoints
     (example_inCal\<lparr>imagePoints := [[Point2f 20 10, Point2f 25 10]],
                    objectPoints := [[Point3f 2 8 0, Point3f 2 8 0]]\<rparr>)
     (example_inCal\<lparr>imagePoints := [[Point2f 20 10, Point2f 25 10]],
                    objectPoints := [[Point3f 2 8 0, Point3f 2 8 0]]\<rparr>)
   = Inr (example_inCal\<lparr>imagePoints := [[Point2f 20 10, Point2f 25 10]],
                        objectPoints := [[Point3f 2 8 0, Point3f 2 8 0]]\<rparr>,
          example_inCal\<lparr>imagePoints := [[Point2f 20 10, Point2f 20 10]],
                        objectPoints := [[Point3f 2 8 0, Point3f 2 8 0]]\<rparr>) \<and>
   getSharedPoints
     (example_inCal\<lparr>imagePoints := [[Point2f 20 10, Point2f 25 10]],
                    objectPoints := [[Point3f 2 8 0, Point3f 2 8 0]]\<rparr>)
     (example_inCal\<lparr>imagePoints := [[Point2f 20 10, Point2f 25 10]],
                    objectPoints := [[Point3f 2 8 0, Point3f 2 8 0]]\<rparr>)
   \<noteq> Inr (example_inCal\<lparr>imagePoints := [[Point2f 20 10, Point2f 25 10]],
                        objectPoints := [[Point3f 2 8 0, Point3f 2 8 0]]\<rparr>,
          example_inCal\<lparr>imagePoints := [[Point2f 20 10, Point2f 25 10]],
                        objectPoints := [[Point3f 2 8 0, Point3f 2 8 0]]\<rparr>)"
  by (simp add: getSharedPoints_def getSharedPoints_image_def example_inCal_def vec_at_def)

section \<open>Properties of \<^verbatim>\<open>getIntPoints\<close>\<close>

text \<open>
  Claim C2. Where the plane list holds a label at the index, \<^verbatim>\<open>getIntPoints\<close> maps every
  point \<open>(x, y, z)\<close> to \<open>((x+1000)/125, (y+1000)/125, 0)\<close> for the label XY, to
  \<open>(0, (y+1000)/125, (-x+1000)/125)\<close> for YZ and to \<open>((x+1000)/125, 0, (-y+1000)/125)\<close>
  for XZ; the local point \<open>(0,0,0)\<close> becomes \<open>(8,8,0)\<close> under XY and \<open>(0,8,8)\<close> under
  YZ, two different points.
\<close>

theorem getIntPoints_affine:
  assumes "0 \<le> index" and "nat index < length (planeList s)"
  shows "(planeList s ! nat index = ''XY'' \<longrightarrow>
            getIntPoints s points index =
              Inr (map (\<lambda>p. Point3f ((x3 p + 1000) / 125) ((y3 p + 1000) / 125) 0) points) \<and>
            getIntPoints s [Point3f 0 0 0] index = Inr [Point3f 8 8 0]) \<and>
         (planeList s ! nat index = ''YZ'' \<longrightarrow>
            getIntPoints s points index =
              Inr (map (\<lambda>p. Point3f 0 ((y3 p + 1000) / 125) ((- x3 p + 1000) / 125)) points) \<and>
            getIntPoints s [Point3f 0 0 0] index = Inr [Point3f 0 8 8]) \<and>
         (planeList s ! nat index = ''XZ'' \<longrightarrow>
            getIntPoints s points index =
              Inr (map (\<lambda>p. Point3f ((x3 p + 1000) / 125) 0 ((- y3 p + 1000) / 125)) points)) \<and>
         Point3f 8 8 0 \<noteq> Point3f 0 8 8"
  using assms by (simp add: getIntPoints_def getIntPoints_switch_def vec_at_def)

text \<open>
  The three planes of the example settings, on the origin and one more point.
\<close>

theorem getIntPoints_affine_witness:
  "getIntPoints example_settings [Point3f 0 0 0, Point3f 125 250 0] 0 =
     Inr [Point3f 8 8 0, Point3f 9 10 0] \<and>
   getIntPoints example_settings [Point3f 0 0 0, Point3f 125 250 0] 1 =
     Inr [Point3f 0 8 8, Point3f 0 10 7] \<and>
   getIntPoints example_settings [Point3f 0 0 0, Point3f 125 250 0] 2 =
     Inr [Point3f 8 0 8, Point3f 9 0 6]"
proof -
  have l: "nat 0 < length (planeList example_settings)" "nat 1 < length (planeList example_settings)"
    "nat 2 < length (planeList example_settings)"
    by (simp_all add: example_settings_def)
  have p: "planeList example_settings ! nat 0 = ''XY''" "planeList example_settings ! nat 1 = ''YZ''"
    "planeList example_settings ! nat 2 = ''XZ''"
    by (simp_all add: example_settings_def)
  from getIntPoints_affine [OF _ l(1), of "[Point3f 0 0 0, Point3f 125 250 0]"] p(1)
  have a: "getIntPoints example_settings [Point3f 0 0 0, Point3f 125 250 0] 0 =
     Inr [Point3f 8 8 0, Point3f 9 10 0]" by simp
  from getIntPoints_affine [OF _ l(2), of "[Point3f 0 0 0, Point3f 125 250 0]"] p(2)
  have b: "getIntPoints example_settings [Point3f 0 0 0, Point3f 125 250 0] 1 =
     Inr [Point3f 0 8 8, Point3f 0 10 7]" by simp
  from getIntPoints_affine [OF _ l(3), of "[Point3f 0 0 0, Point3f 125 250 0]"] p(3)
  have c: "getIntPoints example_settings [Point3f 0 0 0, Point3f 125 250 0] 2 =
     Inr [Point3f 8 0 8, Point3f 9 0 6]" by simp
  from a b c show ?thesis by simp
qed




section \<open>Properties of detection\<close>

lemma findMarkerIndex_Some:
  "findMarkerIndex mmap mid = Some k \<Longrightarrow> k < length mmap \<and> info_id (mmap ! k) = mid"
proof (induction mmap arbitrary: k)
  case Nil
  then show ?case by simp
next
  case (Cons m ms)
  then show ?case by (cases k) (auto split: if_splits)
qed

lemma push_corners_Inr:
  assumes "push_corners cs ps (ib, ob) = Inr (ib', ob')"
  shows "4 \<le> length cs" "4 \<le> length ps" "ib' = ib @ take 4 cs" "ob' = ob @ take 4 ps"
  using assms by (auto simp: push_corners_def split: if_splits)

lemma calcArucoCorners_loop_length:
  "calcArucoCorners_loop det mmap (ib, ob) = Inr (ib', ob') \<Longrightarrow> length ib = length ob \<Longrightarrow>
   length ib' = length ob'"
proof (induction det arbitrary: ib ob)
  case Nil
  then show ?case by simp
next
  case (Cons m ms)
  show ?case
  proof (cases "findMarkerIndex mmap (marker_id m)")
    case None
    with Cons.prems Cons.IH show ?thesis by simp
  next
    case (Some k)
    with Cons.prems(1) obtain ib1 ob1 where
      p: "push_corners (marker_corners m) (info_points (mmap ! k)) (ib, ob) = Inr (ib1, ob1)"
      and r: "calcArucoCorners_loop ms mmap (ib1, ob1) = Inr (ib', ob')"
      by (auto split: sum.splits)
    from push_corners_Inr [OF p] Cons.prems(2) have "length ib1 = length ob1" by simp
    with r show ?thesis by (rule Cons.IH)
  qed
qed

lemma set_zip_take4:
  assumes "(ip, op) \<in> set (zip (take 4 cs) (take 4 ps))"
  shows "\<exists>k<4. ip = cs ! k \<and> op = ps ! k"
proof -
  from assms obtain k where k: "k < length (take 4 cs)" "k < length (take 4 ps)"
    "ip = take 4 cs ! k" "op = take 4 ps ! k"
    by (auto simp: set_zip)
  then have "k < 4" by simp
  with k show ?thesis by auto
qed

lemma calcArucoCorners_loop_pairs:
  "calcArucoCorners_loop det mmap (ib, ob) = Inr (ib', ob') \<Longrightarrow> length ib = length ob \<Longrightarrow>
   (ip, op) \<in> set (zip ib' ob') \<Longrightarrow>
   (ip, op) \<in> set (zip ib ob) \<or>
   (\<exists>m e k. m \<in> set det \<and> e \<in> set mmap \<and> info_id e = marker_id m \<and> k < 4 \<and>
      ip = marker_corners m ! k \<and> op = info_points e ! k)"
proof (induction det arbitrary: ib ob)
  case Nil
  then show ?case by simp
next
  case (Cons m ms)
  show ?case
  proof (cases "findMarkerIndex mmap (marker_id m)")
    case None
    with Cons.prems(1) have "calcArucoCorners_loop ms mmap (ib, ob) = Inr (ib', ob')" by simp
    from Cons.IH [OF this Cons.prems(2,3)] show ?thesis by auto
  next
    case (Some j)
    with Cons.prems(1) obtain ib1 ob1 where
      p: "push_corners (marker_corners m) (info_points (mmap ! j)) (ib, ob) = Inr (ib1, ob1)"
      and r: "calcArucoCorners_loop ms mmap (ib1, ob1) = Inr (ib', ob')"
      by (auto split: sum.splits)
    note pc = push_corners_Inr [OF p]
    from pc Cons.prems(2) have l1: "length ib1 = length ob1" by simp
    from findMarkerIndex_Some [OF Some] have e: "mmap ! j \<in> set mmap" "info_id (mmap ! j) = marker_id m"
      by simp_all
    from Cons.IH [OF r l1 Cons.prems(3)]
    consider "(ip, op) \<in> set (zip ib1 ob1)"
      | "\<exists>m e k. m \<in> set ms \<and> e \<in> set mmap \<and> info_id e = marker_id m \<and> k < 4 \<and>
           ip = marker_corners m ! k \<and> op = info_points e ! k"
      by blast
    then show ?thesis
    proof cases
      case 1
      with pc(3,4) Cons.prems(2)
      have "(ip, op) \<in> set (zip ib ob) \<or>
            (ip, op) \<in> set (zip (take 4 (marker_corners m)) (take 4 (info_points (mmap ! j))))"
        by simp
      then show ?thesis
      proof
        assume "(ip, op) \<in> set (zip ib ob)"
        then show ?thesis by simp
      next
        assume "(ip, op) \<in> set (zip (take 4 (marker_corners m)) (take 4 (info_points (mmap ! j))))"
        from set_zip_take4 [OF this] obtain k where
          "k < 4" "ip = marker_corners m ! k" "op = info_points (mmap ! j) ! k" by blast
        with e have "\<exists>m' e k. m' \<in> set (m # ms) \<and> e \<in> set mmap \<and> info_id e = marker_id m' \<and> k < 4 \<and>
           ip = marker_corners m' ! k \<and> op = info_points e ! k"
          by (intro exI [of _ m] exI [of _ "mmap ! j"] exI [of _ k]) simp
        then show ?thesis by simp
      qed
    next
      case 2
      then obtain m' e k where "m' \<in> set ms" "e \<in> set mmap" "info_id e = marker_id m'" "k < 4"
        "ip = marker_corners m' ! k" "op = info_points e ! k" by blast
      then have "\<exists>m' e k. m' \<in> set (m # ms) \<and> e \<in> set mmap \<and> info_id e = marker_id m' \<and> k < 4 \<and>
           ip = marker_corners m' ! k \<and> op = info_points e ! k"
        by (intro exI [of _ m'] exI [of _ e] exI [of _ k]) simp
      then show ?thesis by simp
    qed
  qed
qed

lemma getIntPoints_switch_length:
  "getIntPoints_switch plane points \<noteq> [] \<Longrightarrow>
   length (getIntPoints_switch plane points) = length points"
  by (simp add: getIntPoints_switch_def split: if_splits)

lemma getIntPoints_length:
  "getIntPoints s points index = Inr intPoints \<Longrightarrow> intPoints \<noteq> [] \<Longrightarrow>
   length intPoints = length points"
  using getIntPoints_switch_length
  by (auto simp: getIntPoints_def split: if_splits sum.splits)

lemma arucoDetect_configs_append:
  "arucoDetect_configs detect s js (ib, ob) = Inr (ib', ob') \<Longrightarrow>
   \<exists>new. ib' = ib @ map fst new \<and> ob' = ob @ map snd new"
proof (induction js arbitrary: ib ob)
  case Nil
  then have "ib' = ib @ map fst []" "ob' = ob @ map snd []" by simp_all
  then show ?case by blast
next
  case (Cons j js)
  from Cons.prems obtain cfg ibuf obuf intPoints where
    c: "calcArucoCorners (detect cfg) cfg = Inr (ibuf, obuf)"
    and g: "getIntPoints s obuf (int j) = Inr intPoints"
    and r: "arucoDetect_configs detect s js
            (if length intPoints > 0 \<and> mode s \<noteq> PREVIEW
             then (ib @ ibuf, ob @ intPoints) else (ib, ob)) = Inr (ib', ob')"
    by (auto split: sum.splits cong del: if_weak_cong)
  show ?case
  proof (cases "length intPoints > 0 \<and> mode s \<noteq> PREVIEW")
    case False
    with r have "arucoDetect_configs detect s js (ib, ob) = Inr (ib', ob')"
      by (simp split: if_splits)
    then show ?thesis by (rule Cons.IH)
  next
    case True
    with r have "arucoDetect_configs detect s js (ib @ ibuf, ob @ intPoints) = Inr (ib', ob')"
      by (simp split: if_splits)
    from Cons.IH [OF this] obtain new where
      n: "ib' = (ib @ ibuf) @ map fst new" "ob' = (ob @ intPoints) @ map snd new" by blast
    from c have "length ibuf = length obuf"
      unfolding calcArucoCorners_def by (rule calcArucoCorners_loop_length) simp
    moreover from g True have "length intPoints = length obuf" by (simp add: getIntPoints_length)
    ultimately have l: "length ibuf = length intPoints" by simp
    from n l have "ib' = ib @ map fst (zip ibuf intPoints @ new)"
      "ob' = ob @ map snd (zip ibuf intPoints @ new)" by simp_all
    then show ?thesis by blast
  qed
qed

lemma arucoDetect_configs_none:
  "\<forall>j\<in>set js. j < length (configList s) \<and> j < length (planeList s) \<and>
      detect (configList s ! j) = [] \<Longrightarrow>
   arucoDetect_configs detect s js acc = Inr acc"
proof (induction js)
  case Nil
  show ?case by simp
next
  case (Cons j js)
  then show ?case
    by (simp add: vec_at_def calcArucoCorners_def getIntPoints_def getIntPoints_switch_def)
qed

lemma list_all2_update:
  "list_all2 P xs ys \<Longrightarrow> P x y \<Longrightarrow> list_all2 P (xs[i := x]) (ys[i := y])"
  by (simp add: list_all2_update_cong)

lemma arucoDetect_inv:
  assumes "corr_inv inCal" "arucoDetect detect s inCal v = Inr inCal'"
  shows "corr_inv inCal'"
proof (cases "mode s = PREVIEW")
  case True
  with assms show ?thesis by (auto simp: arucoDetect_def split: sum.splits)
next
  case False
  with assms(2) obtain ib' ob' where
    v: "0 \<le> v" "nat v < length (imagePoints inCal)" "nat v < length (objectPoints inCal)"
    and r: "arucoDetect_configs detect s [0..<nat (nConfigs s)]
              (imagePoints inCal ! nat v, objectPoints inCal ! nat v) = Inr (ib', ob')"
    and e: "inCal' = inCal\<lparr>imagePoints := (imagePoints inCal)[nat v := ib'],
                           objectPoints := (objectPoints inCal)[nat v := ob']\<rparr>"
    by (auto simp: arucoDetect_def vec_at_def split: if_splits sum.splits)
  from arucoDetect_configs_append [OF r] obtain new where
    n: "ib' = imagePoints inCal ! nat v @ map fst new" "ob' = objectPoints inCal ! nat v @ map snd new"
    by blast
  from assms(1) v have "length (imagePoints inCal ! nat v) = length (objectPoints inCal ! nat v)"
    by (simp add: corr_inv_def list_all2_conv_all_nth)
  with n have "length ib' = length ob'" by simp
  with assms(1) show ?thesis unfolding e corr_inv_def by (simp add: list_all2_update)
qed

lemma chessboard_length:
  "length (calcChessboardCorners s buf) =
     length buf + nat (boardSize_height s) * nat (boardSize_width s)"
  by (simp add: calcChessboardCorners_def length_concat comp_def sum_list_triv)

lemma chessboardDetect_inv:
  assumes "corr_inv inCal"
    and "found \<longrightarrow> length imagePointsBuf = nat (boardSize_height s) * nat (boardSize_width s)"
  shows "corr_inv (chessboardDetect s found imagePointsBuf inCal)"
  using assms
  by (simp add: chessboardDetect_def corr_inv_def chessboard_length list_all2_appendI)

lemma getSharedPoints_inv:
  assumes "corr_inv inCal" "corr_inv inCal2" "getSharedPoints inCal inCal2 = Inr (A', B')"
  shows "corr_inv A'" "corr_inv B'"
proof -
  note r = assms(3) [unfolded getSharedPoints_def]
  note l = loop_lengths [OF r]
  note i1 = corr_inv_nth [OF assms(1)]
  note i2 = corr_inv_nth [OF assms(2)]
  have "length (imagePoints A' ! i) = length (objectPoints A' ! i)"
    if "i < length (imagePoints A')" for i
  proof -
    from that l i1 have i: "i < length (objectPoints inCal)" by simp
    from image_char(3) [OF getSharedPoints_image_at(1) [OF assms(3) i]] show ?thesis .
  qed
  with l i1 show "corr_inv A'" by (simp add: corr_inv_def list_all2_conv_all_nth)
  have "length (imagePoints B' ! i) = length (objectPoints B' ! i)"
    if b: "i < length (imagePoints B')" for i
  proof (cases "i < length (objectPoints inCal)")
    case True
    note img = getSharedPoints_image_at [OF assms(3) True]
    from image_char(4) [OF img(1)] img(2) show ?thesis by simp
  next
    case False
    then have "i \<notin> set [0..<length (objectPoints inCal)]" by simp
    from loop_other [OF r this] b l i2 show ?thesis by simp
  qed
  with l i2 show "corr_inv B'" by (simp add: corr_inv_def list_all2_conv_all_nth)
qed

lemma getSharedPoints_pairs:
  assumes "getSharedPoints inCal inCal2 = Inr (A', B')" "i < length (objectPoints inCal)"
  shows "set (zip (objectPoints A' ! i) (imagePoints A' ! i)) \<subseteq>
           set (zip (objectPoints inCal ! i) (imagePoints inCal ! i))"
    and "set (zip (objectPoints B' ! i) (imagePoints B' ! i)) \<subseteq>
           set (zip (objectPoints inCal2 ! i) (imagePoints inCal2 ! i))"
proof -
  note img = getSharedPoints_image_at [OF assms]
  note c = image_char [OF img(1)]
  show "set (zip (objectPoints A' ! i) (imagePoints A' ! i)) \<subseteq>
           set (zip (objectPoints inCal ! i) (imagePoints inCal ! i))"
    unfolding c(5) by (rule filter_is_subset)
  from c(6) img(2) show "set (zip (objectPoints B' ! i) (imagePoints B' ! i)) \<subseteq>
           set (zip (objectPoints inCal2 ! i) (imagePoints inCal2 ! i))" by simp
qed

lemma calcArucoCorners_pairs:
  assumes "calcArucoCorners det mmap = Inr (ib, ob)"
  shows "length ib = length ob"
    and "\<forall>q\<in>set (zip ib ob). \<exists>m\<in>set det. \<exists>e\<in>set mmap. \<exists>k<4.
           info_id e = marker_id m \<and> fst q = marker_corners m ! k \<and> snd q = info_points e ! k"
proof -
  note a = assms [unfolded calcArucoCorners_def]
  show "length ib = length ob" using a by (rule calcArucoCorners_loop_length) simp
  show "\<forall>q\<in>set (zip ib ob). \<exists>m\<in>set det. \<exists>e\<in>set mmap. \<exists>k<4.
           info_id e = marker_id m \<and> fst q = marker_corners m ! k \<and> snd q = info_points e ! k"
  proof
    fix q assume "q \<in> set (zip ib ob)"
    then have "(fst q, snd q) \<in> set (zip ib ob)" by simp
    from calcArucoCorners_loop_pairs [OF a _ this]
    obtain m e k where "m \<in> set det" "e \<in> set mmap" "info_id e = marker_id m" "k < 4"
      "fst q = marker_corners m ! k" "snd q = info_points e ! k" by auto
    then show "\<exists>m\<in>set det. \<exists>e\<in>set mmap. \<exists>k<4.
           info_id e = marker_id m \<and> fst q = marker_corners m ! k \<and> snd q = info_points e ! k"
      by blast
  qed
qed

lemma arucoDetect_appends:
  assumes "arucoDetect detect s inCal v = Inr inCal'" "mode s \<noteq> PREVIEW"
  shows "\<exists>new. inCal' = inCal\<lparr>imagePoints := (imagePoints inCal)[nat v := imagePoints inCal ! nat v @ map fst new],
                           objectPoints := (objectPoints inCal)[nat v := objectPoints inCal ! nat v @ map snd new]\<rparr>"
proof -
  from assms obtain ib' ob' where
    r: "arucoDetect_configs detect s [0..<nat (nConfigs s)]
              (imagePoints inCal ! nat v, objectPoints inCal ! nat v) = Inr (ib', ob')"
    and e: "inCal' = inCal\<lparr>imagePoints := (imagePoints inCal)[nat v := ib'],
                           objectPoints := (objectPoints inCal)[nat v := ob']\<rparr>"
    by (auto simp: arucoDetect_def vec_at_def split: if_splits sum.splits)
  from arucoDetect_configs_append [OF r] e show ?thesis by blast
qed

lemma getIntPoints_switch_zip:
  assumes "getIntPoints_switch plane ob \<noteq> []"
    and "q \<in> set (zip ib (getIntPoints_switch plane ob))"
  shows "\<exists>p. (fst q, p) \<in> set (zip ib ob) \<and> getIntPoints_switch plane [p] = [snd q]"
proof -
  from assms(1) consider "plane = ''XY''" | "plane = ''YZ''" | "plane = ''XZ''"
    by (auto simp: getIntPoints_switch_def split: if_splits)
  then have "\<exists>f. \<forall>ps. getIntPoints_switch plane ps = map f ps"
  proof cases
    case 1
    then show ?thesis
      by (intro exI [of _ "\<lambda>p. Point3f ((x3 p + 1000) / 125) ((y3 p + 1000) / 125) 0"])
        (simp add: getIntPoints_switch_def)
  next
    case 2
    then show ?thesis
      by (intro exI [of _ "\<lambda>p. Point3f 0 ((y3 p + 1000) / 125) ((- x3 p + 1000) / 125)"])
        (simp add: getIntPoints_switch_def)
  next
    case 3
    then show ?thesis
      by (intro exI [of _ "\<lambda>p. Point3f ((x3 p + 1000) / 125) 0 ((- y3 p + 1000) / 125)"])
        (simp add: getIntPoints_switch_def)
  qed
  then obtain f where f: "\<And>ps. getIntPoints_switch plane ps = map f ps" by blast
  from assms(2) have "q \<in> set (map (\<lambda>(a, p). (a, f p)) (zip ib ob))"
    by (simp add: f zip_map2)
  then obtain a p where "(a, p) \<in> set (zip ib ob)" "q = (a, f p)" by auto
  then have "(fst q, p) \<in> set (zip ib ob) \<and> getIntPoints_switch plane [p] = [snd q]"
    by (simp add: f)
  then show ?thesis by blast
qed

lemma getIntPoints_Inr:
  assumes "getIntPoints s ob (int j) = Inr intPoints"
  shows "j < length (planeList s)" "intPoints = getIntPoints_switch (planeList s ! j) ob"
  using assms by (auto simp: getIntPoints_def vec_at_def split: if_splits)

lemma arucoDetect_configs_pairs:
  "arucoDetect_configs detect s js (ib, ob) = Inr (ib', ob') \<Longrightarrow>
   \<exists>new. ib' = ib @ map fst new \<and> ob' = ob @ map snd new \<and>
     (\<forall>q\<in>set new. \<exists>c\<in>set js. c < length (configList s) \<and> c < length (planeList s) \<and>
        (\<exists>m\<in>set (detect (configList s ! c)). \<exists>e\<in>set (configList s ! c). \<exists>k<4.
           info_id e = marker_id m \<and> fst q = marker_corners m ! k \<and>
           getIntPoints_switch (planeList s ! c) [info_points e ! k] = [snd q]))"
proof (induction js arbitrary: ib ob)
  case Nil
  then have "ib' = ib @ map fst []" "ob' = ob @ map snd []" by simp_all
  then show ?case by (intro exI [of _ "[]"]) simp
next
  case (Cons j js)
  let ?P = "\<lambda>cs q. \<exists>c\<in>set cs. c < length (configList s) \<and> c < length (planeList s) \<and>
        (\<exists>m\<in>set (detect (configList s ! c)). \<exists>e\<in>set (configList s ! c). \<exists>k<4.
           info_id e = marker_id m \<and> fst q = marker_corners m ! k \<and>
           getIntPoints_switch (planeList s ! c) [info_points e ! k] = [snd q])"
  from Cons.prems obtain ibuf obuf intPoints where
    jc: "j < length (configList s)"
    and c: "calcArucoCorners (detect (configList s ! j)) (configList s ! j) = Inr (ibuf, obuf)"
    and g: "getIntPoints s obuf (int j) = Inr intPoints"
    and r: "arucoDetect_configs detect s js
            (if length intPoints > 0 \<and> mode s \<noteq> PREVIEW
             then (ib @ ibuf, ob @ intPoints) else (ib, ob)) = Inr (ib', ob')"
    by (auto simp: vec_at_def split: sum.splits if_splits cong del: if_weak_cong)
  have mono: "?P (j # js) q" if "?P js q" for q using that by auto
  show ?case
  proof (cases "length intPoints > 0 \<and> mode s \<noteq> PREVIEW")
    case False
    with r have "arucoDetect_configs detect s js (ib, ob) = Inr (ib', ob')"
      by (simp split: if_splits)
    from Cons.IH [OF this] obtain new where
      n: "ib' = ib @ map fst new" "ob' = ob @ map snd new" "\<forall>q\<in>set new. ?P js q" by blast
    from n(3) mono have "\<forall>q\<in>set new. ?P (j # js) q" by blast
    with n(1,2) show ?thesis by blast
  next
    case True
    with r have "arucoDetect_configs detect s js (ib @ ibuf, ob @ intPoints) = Inr (ib', ob')"
      by (simp split: if_splits)
    from Cons.IH [OF this] obtain new where
      n: "ib' = (ib @ ibuf) @ map fst new" "ob' = (ob @ intPoints) @ map snd new"
        "\<forall>q\<in>set new. ?P js q" by blast
    note gi = getIntPoints_Inr [OF g]
    note cp = calcArucoCorners_pairs [OF c]
    from True gi(2) have ne: "getIntPoints_switch (planeList s ! j) obuf \<noteq> []" by auto
    from gi(2) ne have "length intPoints = length obuf"
      by (simp add: getIntPoints_switch_length)
    with cp(1) have l: "length ibuf = length intPoints" by simp
    have first: "?P (j # js) q" if q: "q \<in> set (zip ibuf intPoints)" for q
    proof -
      from q gi(2) have "q \<in> set (zip ibuf (getIntPoints_switch (planeList s ! j) obuf))" by simp
      from getIntPoints_switch_zip [OF ne this] obtain p where
        p: "(fst q, p) \<in> set (zip ibuf obuf)" "getIntPoints_switch (planeList s ! j) [p] = [snd q]"
        by blast
      from cp(2) p(1) obtain m e k where
        "m \<in> set (detect (configList s ! j))" "e \<in> set (configList s ! j)" "k < 4"
        "info_id e = marker_id m" "fst q = marker_corners m ! k" "p = info_points e ! k"
        by fastforce
      with p(2) jc gi(1) show ?thesis by auto
    qed
    have "\<forall>q\<in>set (zip ibuf intPoints @ new). ?P (j # js) q"
    proof
      fix q assume "q \<in> set (zip ibuf intPoints @ new)"
      then consider "q \<in> set (zip ibuf intPoints)" | "q \<in> set new" by auto
      then show "?P (j # js) q"
      proof cases
        case 1
        then show ?thesis by (rule first)
      next
        case 2
        with n(3) have "?P js q" by (rule bspec)
        then show ?thesis by (rule mono)
      qed
    qed
    moreover from n(1,2) l have "ib' = ib @ map fst (zip ibuf intPoints @ new)"
      "ob' = ob @ map snd (zip ibuf intPoints @ new)" by simp_all
    ultimately show ?thesis by blast
  qed
qed

lemma arucoDetect_pairs:
  assumes "arucoDetect detect s inCal v = Inr inCal'" "mode s \<noteq> PREVIEW"
  shows "\<exists>new. inCal' = inCal\<lparr>imagePoints := (imagePoints inCal)[nat v := imagePoints inCal ! nat v @ map fst new],
                           objectPoints := (objectPoints inCal)[nat v := objectPoints inCal ! nat v @ map snd new]\<rparr> \<and>
     (\<forall>q\<in>set new. \<exists>c<nat (nConfigs s). c < length (configList s) \<and> c < length (planeList s) \<and>
        (\<exists>m\<in>set (detect (configList s ! c)). \<exists>e\<in>set (configList s ! c). \<exists>k<4.
           info_id e = marker_id m \<and> fst q = marker_corners m ! k \<and>
           getIntPoints_switch (planeList s ! c) [info_points e ! k] = [snd q]))"
proof -
  from assms obtain ib' ob' where
    r: "arucoDetect_configs detect s [0..<nat (nConfigs s)]
              (imagePoints inCal ! nat v, objectPoints inCal ! nat v) = Inr (ib', ob')"
    and e: "inCal' = inCal\<lparr>imagePoints := (imagePoints inCal)[nat v := ib'],
                           objectPoints := (objectPoints inCal)[nat v := ob']\<rparr>"
    by (auto simp: arucoDetect_def vec_at_def split: if_splits sum.splits)
  from arucoDetect_configs_pairs [OF r] obtain new where
    n: "ib' = imagePoints inCal ! nat v @ map fst new" "ob' = objectPoints inCal ! nat v @ map snd new"
    and p: "\<forall>q\<in>set new. \<exists>c\<in>set [0..<nat (nConfigs s)]. c < length (configList s) \<and> c < length (planeList s) \<and>
        (\<exists>m\<in>set (detect (configList s ! c)). \<exists>e\<in>set (configList s ! c). \<exists>k<4.
           info_id e = marker_id m \<and> fst q = marker_corners m ! k \<and>
           getIntPoints_switch (planeList s ! c) [info_points e ! k] = [snd q])"
    by blast
  from p have "\<forall>q\<in>set new. \<exists>c<nat (nConfigs s). c < length (configList s) \<and> c < length (planeList s) \<and>
        (\<exists>m\<in>set (detect (configList s ! c)). \<exists>e\<in>set (configList s ! c). \<exists>k<4.
           info_id e = marker_id m \<and> fst q = marker_corners m ! k \<and>
           getIntPoints_switch (planeList s ! c) [info_points e ! k] = [snd q])"
    by (simp add: Bex_def)
  with e n show ?thesis by blast
qed

lemma grid_nth:
  "i < h \<Longrightarrow> j < w \<Longrightarrow>
   concat (map (\<lambda>i. map (f i) [0..<w]) [0..<h]) ! (i * w + j) = f i j"
proof (induction h)
  case 0
  then show ?case by simp
next
  case (Suc h)
  have len: "length (concat (map (\<lambda>i. map (f i) [0..<w]) [0..<h])) = h * w"
    by (simp add: length_concat comp_def sum_list_triv)
  show ?case
  proof (cases "i < h")
    case True
    then have "Suc i \<le> h" by simp
    then have "Suc i * w \<le> h * w" by (rule mult_le_mono1)
    with Suc.prems(2) have "i * w + j < h * w" by simp
    with Suc.IH [OF True Suc.prems(2)] len show ?thesis by (simp add: nth_append)
  next
    case False
    with Suc.prems(1) have "i = h" by simp
    with Suc.prems(2) len show ?thesis by (simp add: nth_append)
  qed
qed

lemma calcChessboardCorners_nth:
  assumes "i < nat (boardSize_height s)" "j < nat (boardSize_width s)"
  shows "calcChessboardCorners s [] ! (i * nat (boardSize_width s) + j) =
           Point3f (real j * squareSize s) (real i * squareSize s) 0"
  unfolding calcChessboardCorners_def using grid_nth [OF assms] by simp

text \<open>
  Claim C8. Starting from collections that keep the invariant:
  \<^item> chessboard detection keeps it, given that OpenCV reports a found board with one corner
    per inner corner of the board; a found board appends the detector's corners, as they
    are, and the grid of the board whose entry at index \<open>i * width + j\<close> is the corner of
    row \<open>i\<close> and column \<open>j\<close>, the order in which OpenCV returns the corners; a board that is
    not found changes nothing;
  \<^item> \<^verbatim>\<open>calcArucoCorners\<close> returns as many 2D points as 3D points, and the pair at every
    index is corner \<open>k\<close> of a detected marker with corner \<open>k\<close> of the map's entry of the same
    id;
  \<^item> \<^verbatim>\<open>arucoDetect\<close> keeps the invariant and, outside preview mode, only appends pairs to
    the set of the image, each pair being corner \<open>k\<close> of a marker detected for one of the
    maps with the unified corner \<open>k\<close> of that map's entry of the same id, under the plane
    of that map; in preview mode it changes nothing;
  \<^item> \<^verbatim>\<open>getSharedPoints\<close> keeps the invariant for both cameras, and every pair it leaves was
    a pair of the same camera before.
\<close>

theorem correspondence_invariant_preserved:
  assumes "corr_inv inCal" and "corr_inv inCal2"
  shows "((found \<longrightarrow> length imagePointsBuf = nat (boardSize_height s) * nat (boardSize_width s)) \<longrightarrow>
            corr_inv (chessboardDetect s found imagePointsBuf inCal)) \<and>
         (\<forall>ib ob. calcArucoCorners markers_detected mmap = Inr (ib, ob) \<longrightarrow>
            length ib = length ob \<and>
            (\<forall>q\<in>set (zip ib ob). \<exists>m\<in>set markers_detected. \<exists>e\<in>set mmap. \<exists>k<4.
               info_id e = marker_id m \<and>
               fst q = marker_corners m ! k \<and> snd q = info_points e ! k)) \<and>
         (\<forall>inCal'. arucoDetect detect s inCal vectorIndex = Inr inCal' \<longrightarrow>
            corr_inv inCal' \<and>
            (mode s \<noteq> PREVIEW \<longrightarrow>
               (\<exists>new. inCal' =
                  inCal\<lparr>imagePoints := (imagePoints inCal)
                           [nat vectorIndex := imagePoints inCal ! nat vectorIndex @ map fst new],
                        objectPoints := (objectPoints inCal)
                           [nat vectorIndex := objectPoints inCal ! nat vectorIndex @ map snd new]\<rparr> \<and>
                  (\<forall>q\<in>set new. \<exists>c<nat (nConfigs s).
                     c < length (configList s) \<and> c < length (planeList s) \<and>
                     (\<exists>m\<in>set (detect (configList s ! c)). \<exists>e\<in>set (configList s ! c). \<exists>k<4.
                        info_id e = marker_id m \<and> fst q = marker_corners m ! k \<and>
                        getIntPoints_switch (planeList s ! c) [info_points e ! k] = [snd q])))) \<and>
            (mode s = PREVIEW \<longrightarrow> inCal' = inCal)) \<and>
         (\<forall>A' B'. getSharedPoints inCal inCal2 = Inr (A', B') \<longrightarrow>
            corr_inv A' \<and> corr_inv B' \<and>
            (\<forall>i<length (objectPoints inCal).
               set (zip (objectPoints A' ! i) (imagePoints A' ! i)) \<subseteq>
                 set (zip (objectPoints inCal ! i) (imagePoints inCal ! i)) \<and>
               set (zip (objectPoints B' ! i) (imagePoints B' ! i)) \<subseteq>
                 set (zip (objectPoints inCal2 ! i) (imagePoints inCal2 ! i)))) \<and>
         (found \<longrightarrow>
            imagePoints (chessboardDetect s found imagePointsBuf inCal) =
              imagePoints inCal @ [imagePointsBuf] \<and>
            (\<exists>grid. objectPoints (chessboardDetect s found imagePointsBuf inCal) =
                      objectPoints inCal @ [grid] \<and>
               length grid = nat (boardSize_height s) * nat (boardSize_width s) \<and>
               (\<forall>i<nat (boardSize_height s). \<forall>j<nat (boardSize_width s).
                  grid ! (i * nat (boardSize_width s) + j) =
                    Point3f (real j * squareSize s) (real i * squareSize s) 0))) \<and>
         (\<not> found \<longrightarrow> chessboardDetect s found imagePointsBuf inCal = inCal)"
proof (intro conjI allI impI)
  assume "found \<longrightarrow> length imagePointsBuf = nat (boardSize_height s) * nat (boardSize_width s)"
  with assms(1) show "corr_inv (chessboardDetect s found imagePointsBuf inCal)"
    by (rule chessboardDetect_inv)
next
  fix ib ob assume c: "calcArucoCorners markers_detected mmap = Inr (ib, ob)"
  from c show "length ib = length ob" by (rule calcArucoCorners_pairs(1))
  from c show "\<forall>q\<in>set (zip ib ob). \<exists>m\<in>set markers_detected. \<exists>e\<in>set mmap. \<exists>k<4.
               info_id e = marker_id m \<and>
               fst q = marker_corners m ! k \<and> snd q = info_points e ! k"
    by (rule calcArucoCorners_pairs(2))
next
  fix inCal' assume a: "arucoDetect detect s inCal vectorIndex = Inr inCal'"
  from assms(1) a show "corr_inv inCal'" by (rule arucoDetect_inv)
  {
    assume "mode s \<noteq> PREVIEW"
    with a show "\<exists>new. inCal' =
                  inCal\<lparr>imagePoints := (imagePoints inCal)
                           [nat vectorIndex := imagePoints inCal ! nat vectorIndex @ map fst new],
                        objectPoints := (objectPoints inCal)
                           [nat vectorIndex := objectPoints inCal ! nat vectorIndex @ map snd new]\<rparr> \<and>
                  (\<forall>q\<in>set new. \<exists>c<nat (nConfigs s).
                     c < length (configList s) \<and> c < length (planeList s) \<and>
                     (\<exists>m\<in>set (detect (configList s ! c)). \<exists>e\<in>set (configList s ! c). \<exists>k<4.
                        info_id e = marker_id m \<and> fst q = marker_corners m ! k \<and>
                        getIntPoints_switch (planeList s ! c) [info_points e ! k] = [snd q]))"
      by (rule arucoDetect_pairs)
  }
  {
    assume "mode s = PREVIEW"
    with a show "inCal' = inCal" by (auto simp: arucoDetect_def split: sum.splits)
  }
next
  fix A' B' assume g: "getSharedPoints inCal inCal2 = Inr (A', B')"
  from assms g show "corr_inv A'" by (rule getSharedPoints_inv(1))
  from assms g show "corr_inv B'" by (rule getSharedPoints_inv(2))
  fix i assume i: "i < length (objectPoints inCal)"
  from g i show "set (zip (objectPoints A' ! i) (imagePoints A' ! i)) \<subseteq>
                 set (zip (objectPoints inCal ! i) (imagePoints inCal ! i))"
    by (rule getSharedPoints_pairs(1))
  from g i show "set (zip (objectPoints B' ! i) (imagePoints B' ! i)) \<subseteq>
                 set (zip (objectPoints inCal2 ! i) (imagePoints inCal2 ! i))"
    by (rule getSharedPoints_pairs(2))
next
  assume found
  then show "imagePoints (chessboardDetect s found imagePointsBuf inCal) =
              imagePoints inCal @ [imagePointsBuf]"
    by (simp add: chessboardDetect_def)
  from \<open>found\<close> have "objectPoints (chessboardDetect s found imagePointsBuf inCal) =
      objectPoints inCal @ [calcChessboardCorners s []]"
    by (simp add: chessboardDetect_def)
  moreover have "length (calcChessboardCorners s []) =
      nat (boardSize_height s) * nat (boardSize_width s)"
    by (simp add: chessboard_length)
  moreover have "\<forall>i<nat (boardSize_height s). \<forall>j<nat (boardSize_width s).
      calcChessboardCorners s [] ! (i * nat (boardSize_width s) + j) =
        Point3f (real j * squareSize s) (real i * squareSize s) 0"
    by (simp add: calcChessboardCorners_nth)
  ultimately show "\<exists>grid. objectPoints (chessboardDetect s found imagePointsBuf inCal) =
                      objectPoints inCal @ [grid] \<and>
               length grid = nat (boardSize_height s) * nat (boardSize_width s) \<and>
               (\<forall>i<nat (boardSize_height s). \<forall>j<nat (boardSize_width s).
                  grid ! (i * nat (boardSize_width s) + j) =
                    Point3f (real j * squareSize s) (real i * squareSize s) 0)"
    by blast
next
  assume "\<not> found"
  then show "chessboardDetect s found imagePointsBuf inCal = inCal"
    by (simp add: chessboardDetect_def)
qed

lemma upt_0_3: "[0..<3] = [0, 1, 2]"
  by code_simp

lemma example_arucoDetect:
  "arucoDetect example_detect example_settings example_inCal 0 =
     Inr (example_inCal
       \<lparr>imagePoints := [[Point2f 10 10, Point2f 20 10, Point2f 30 10, Point2f 100 100,
            Point2f 200 100, Point2f 200 200, Point2f 100 200]],
        objectPoints := [[Point3f 1 8 0, Point3f 2 8 0, Point3f 3 8 0, Point3f 8 8 0,
            Point3f 9 8 0, Point3f 9 9 0, Point3f 8 9 0]]\<rparr>)"
  by (simp add: arucoDetect_def example_settings_def example_inCal_def example_detect_def
     example_map_def vec_at_def calcArucoCorners_def push_corners_def getIntPoints_def
     getIntPoints_switch_def upt_0_3)

lemma example_getSharedPoints:
  "getSharedPoints example_inCal example_inCal2 =
     Inr (example_inCal\<lparr>imagePoints := [[Point2f 20 10, Point2f 30 10]],
                          objectPoints := [[Point3f 2 8 0, Point3f 3 8 0]]\<rparr>,
          example_inCal2\<lparr>imagePoints := [[Point2f 21 11, Point2f 31 11]],
                           objectPoints := [[Point3f 2 8 0, Point3f 3 8 0]]\<rparr>)"
  by (simp add: getSharedPoints_def getSharedPoints_image_def example_inCal_def
        example_inCal2_def vec_at_def)

theorem correspondence_invariant_preserved_witness:
  "corr_inv example_inCal \<and> corr_inv example_inCal2 \<and>
   corr_inv (chessboardDetect example_settings True
     [Point2f 1 1, Point2f 2 1, Point2f 3 1, Point2f 1 2, Point2f 2 2, Point2f 3 2]
     example_inCal) \<and>
   corr_inv (example_inCal
       \<lparr>imagePoints := [[Point2f 10 10, Point2f 20 10, Point2f 30 10, Point2f 100 100,
            Point2f 200 100, Point2f 200 200, Point2f 100 200]],
        objectPoints := [[Point3f 1 8 0, Point3f 2 8 0, Point3f 3 8 0, Point3f 8 8 0,
            Point3f 9 8 0, Point3f 9 9 0, Point3f 8 9 0]]\<rparr>) \<and>
   corr_inv (example_inCal\<lparr>imagePoints := [[Point2f 20 10, Point2f 30 10]],
                          objectPoints := [[Point3f 2 8 0, Point3f 3 8 0]]\<rparr>) \<and>
   corr_inv (example_inCal2\<lparr>imagePoints := [[Point2f 21 11, Point2f 31 11]],
                           objectPoints := [[Point3f 2 8 0, Point3f 3 8 0]]\<rparr>) \<and>
   imagePoints (chessboardDetect example_settings True
     [Point2f 1 1, Point2f 2 1, Point2f 3 1, Point2f 1 2, Point2f 2 2, Point2f 3 2]
     example_inCal) =
     imagePoints example_inCal @
       [[Point2f 1 1, Point2f 2 1, Point2f 3 1, Point2f 1 2, Point2f 2 2, Point2f 3 2]]"
proof -
  have h1: "corr_inv example_inCal" by (simp add: corr_inv_def example_inCal_def)
  have h2: "corr_inv example_inCal2" by (simp add: corr_inv_def example_inCal2_def)
  have h3: "True \<longrightarrow> length [Point2f 1 1, Point2f 2 1, Point2f 3 1, Point2f 1 2, Point2f 2 2, Point2f 3 2]
     = nat (boardSize_height example_settings) * nat (boardSize_width example_settings)"
    by (simp add: example_settings_def)
  note t = correspondence_invariant_preserved [OF h1 h2,
      of True "[Point2f 1 1, Point2f 2 1, Point2f 3 1, Point2f 1 2, Point2f 2 2, Point2f 3 2]"
         example_settings "example_detect (example_map 7)" "example_map 7" example_detect 0]
  from t [THEN conjunct1] h3 have c: "corr_inv (chessboardDetect example_settings True
     [Point2f 1 1, Point2f 2 1, Point2f 3 1, Point2f 1 2, Point2f 2 2, Point2f 3 2]
     example_inCal)" by (rule mp)
  from t [THEN conjunct2, THEN conjunct2, THEN conjunct1, rule_format, OF example_arucoDetect]
  have a: "corr_inv (example_inCal
       \<lparr>imagePoints := [[Point2f 10 10, Point2f 20 10, Point2f 30 10, Point2f 100 100,
            Point2f 200 100, Point2f 200 200, Point2f 100 200]],
        objectPoints := [[Point3f 1 8 0, Point3f 2 8 0, Point3f 3 8 0, Point3f 8 8 0,
            Point3f 9 8 0, Point3f 9 9 0, Point3f 8 9 0]]\<rparr>)" by (rule conjunct1)
  note g = t [THEN conjunct2, THEN conjunct2, THEN conjunct2, THEN conjunct1, rule_format,
      OF example_getSharedPoints]
  note f = t [THEN conjunct2, THEN conjunct2, THEN conjunct2, THEN conjunct2, THEN conjunct1,
      rule_format, OF TrueI, THEN conjunct1]
  from g [THEN conjunct1] g [THEN conjunct2, THEN conjunct1] h1 h2 c a f show ?thesis
    by (intro conjI)
qed

lemma resize_empty: "resize [] n v = replicate n v"
  by (simp add: resize_def)

text \<open>
  The two detection paths on a miss. A chessboard that is not found leaves the
  collection as it is: no set is appended. For an ArUco pattern, the collections are
  allocated with one empty set per image before detection, and an image in which no map
  detects a marker leaves the whole calibration unchanged, so the set of that image
  stays as allocated and no index moves.
\<close>

lemma detection_miss_paths:
  "chessboardDetect s False imagePointsBuf inCal = inCal \<and>
   (mode s \<noteq> PREVIEW \<and> 0 \<le> vectorIndex \<and>
    nat vectorIndex < length (imagePoints inCal) \<and>
    nat vectorIndex < length (objectPoints inCal) \<and>
    nat (nConfigs s) \<le> length (configList s) \<and>
    nat (nConfigs s) \<le> length (planeList s) \<and>
    (\<forall>j<nat (nConfigs s). detect (configList s ! j) = []) \<longrightarrow>
      arucoDetect detect s inCal vectorIndex = Inr inCal) \<and>
   (calibrationPattern s \<noteq> CHESSBOARD \<longrightarrow>
      imagePoints (calibrateWithSettings_resize s new_intrinsicCalibration) =
        replicate (nat (if mode s = STEREO then nImages s div 2 else nImages s)) [] \<and>
      objectPoints (calibrateWithSettings_resize s new_intrinsicCalibration) =
        replicate (nat (if mode s = STEREO then nImages s div 2 else nImages s)) [])"
proof (intro conjI impI)
  show "chessboardDetect s False imagePointsBuf inCal = inCal"
    by (simp add: chessboardDetect_def)
next
  assume a: "mode s \<noteq> PREVIEW \<and> 0 \<le> vectorIndex \<and>
    nat vectorIndex < length (imagePoints inCal) \<and>
    nat vectorIndex < length (objectPoints inCal) \<and>
    nat (nConfigs s) \<le> length (configList s) \<and>
    nat (nConfigs s) \<le> length (planeList s) \<and>
    (\<forall>j<nat (nConfigs s). detect (configList s ! j) = [])"
  then have "\<forall>j\<in>set [0..<nat (nConfigs s)]. j < length (configList s) \<and> j < length (planeList s) \<and>
      detect (configList s ! j) = []" by auto
  then have "arucoDetect_configs detect s [0..<nat (nConfigs s)]
      (imagePoints inCal ! nat vectorIndex, objectPoints inCal ! nat vectorIndex)
    = Inr (imagePoints inCal ! nat vectorIndex, objectPoints inCal ! nat vectorIndex)"
    by (rule arucoDetect_configs_none)
  with a show "arucoDetect detect s inCal vectorIndex = Inr inCal"
    by (simp add: arucoDetect_def vec_at_def)
next
  assume "calibrationPattern s \<noteq> CHESSBOARD"
  then show "imagePoints (calibrateWithSettings_resize s new_intrinsicCalibration) =
        replicate (nat (if mode s = STEREO then nImages s div 2 else nImages s)) []"
    and "objectPoints (calibrateWithSettings_resize s new_intrinsicCalibration) =
        replicate (nat (if mode s = STEREO then nImages s div 2 else nImages s)) []"
    by (simp_all add: calibrateWithSettings_resize_def new_intrinsicCalibration_def resize_empty
        Let_def)
qed

text \<open>
  Claim C3 fails on the code for the chessboard. In a stereo run of two image pairs in
  which the board is found in both left images and in the first right image only, the
  missed image appends nothing: the first camera's collection holds two sets and the
  second camera's one, and the stereo solver is called with two sets of object points,
  two sets of image points for the first camera and one for the second. The ArUco path
  keeps the allocated empty set of an image without markers.
\<close>

theorem chessboardDetect_miss_misaligned:
  "calibrateWithSettings_chessboard example_chessboard 0
     [(True, example_corners), (True, example_corners), (True, example_corners), (False, [])]
     (new_intrinsicCalibration, new_intrinsicCalibration) =
     (chessboardDetect example_chessboard True example_corners
        (chessboardDetect example_chessboard True example_corners new_intrinsicCalibration),
      chessboardDetect example_chessboard True example_corners new_intrinsicCalibration) \<and>
   length (imagePoints
     (chessboardDetect example_chessboard True example_corners
        (chessboardDetect example_chessboard True example_corners new_intrinsicCalibration))) = 2 \<and>
   length (imagePoints
     (chessboardDetect example_chessboard True example_corners new_intrinsicCalibration)) = 1 \<and>
   (\<exists>a b c.
      runStereoCalibration_call example_chessboard
        (chessboardDetect example_chessboard True example_corners
           (chessboardDetect example_chessboard True example_corners new_intrinsicCalibration))
        (chessboardDetect example_chessboard True example_corners new_intrinsicCalibration)
        = Inr (a, b, c) \<and>
      length (sc_objectPoints c) = 2 \<and> length (sc_imagePoints1 c) = 2 \<and>
      length (sc_imagePoints2 c) = 1) \<and>
   imagePoints (calibrateWithSettings_resize example_settings new_intrinsicCalibration) = [[]] \<and>
   arucoDetect example_detect_nothing example_settings
     (calibrateWithSettings_resize example_settings new_intrinsicCalibration) 0 =
     Inr (calibrateWithSettings_resize example_settings new_intrinsicCalibration)"
  by (simp add: chessboardDetect_def new_intrinsicCalibration_def runStereoCalibration_call_def
      runStereoCalibration_intrinsics_def example_settings_def calibrateWithSettings_resize_def
      resize_def arucoDetect_def vec_at_def upt_0_3 calcArucoCorners_def getIntPoints_def
      getIntPoints_switch_def example_detect_nothing_def example_map_def Let_def
      example_chessboard_def example_corners_def)

section \<open>Properties of \<^verbatim>\<open>computeReprojectionErrors\<close>\<close>

lemma zip_nth_map:
  "length a = length b \<Longrightarrow> zip a b = map (\<lambda>k. (a ! k, b ! k)) [0..<length a]"
  by (rule nth_equalityI) simp_all

lemma sumSquaredError_zip:
  assumes "length a = length b"
  shows "(\<Sum>(p, q)\<leftarrow>zip a b. (x2 p - x2 q)\<^sup>2 + (y2 p - y2 q)\<^sup>2) = sumSquaredError a b"
  unfolding sumSquaredError_def zip_nth_map [OF assms] by (simp add: comp_def)

lemma sumSquaredError_nonneg: "0 \<le> sumSquaredError a b"
  unfolding sumSquaredError_def by (rule sum_list_nonneg) auto

lemma sumSquaredError_same: "sumSquaredError a a = 0"
  unfolding sumSquaredError_def by simp

lemma norm_L2_Inr:
  assumes "norm_L2 a b = Inr err"
  shows "err * err = sumSquaredError a b" and "length a = length b"
proof -
  from assms show l: "length a = length b" by (simp add: norm_L2_def split: if_splits)
  with assms have "err = sqrt (sumSquaredError a b)"
    by (simp add: norm_L2_def sumSquaredError_zip)
  with sumSquaredError_nonneg [of a b] show "err * err = sumSquaredError a b" by simp
qed

lemma norm_L2_total: "length a = length b \<Longrightarrow> \<exists>err. norm_L2 a b = Inr err"
  by (simp add: norm_L2_def)

lemma cre_Cons_elim:
  assumes "computeReprojectionErrors_loop proj c (i # is) (errs, te, tp) = Inr r"
  obtains "i < length (objectPoints c)" "i < length (rvecs c)" "i < length (tvecs c)"
    "i < length (imagePoints c)"
    "length (imagePoints c ! i) = length (reprojected proj c i)"
    "computeReprojectionErrors_loop proj c is
       (errs[i := map_option sqrt (fdiv (sumSquaredError (imagePoints c ! i) (reprojected proj c i))
                     (real (length (objectPoints c ! i))))],
        te + sumSquaredError (imagePoints c ! i) (reprojected proj c i),
        tp + int (length (objectPoints c ! i))) = Inr r"
proof -
  from assms obtain err where
    l: "i < length (objectPoints c)" "i < length (rvecs c)" "i < length (tvecs c)"
      "i < length (imagePoints c)"
    and n: "norm_L2 (imagePoints c ! i) (reprojected proj c i) = Inr err"
    and r: "computeReprojectionErrors_loop proj c is
       (errs[i := map_option sqrt (fdiv (err * err) (real (length (objectPoints c ! i))))],
        te + err * err, tp + int (length (objectPoints c ! i))) = Inr r"
    by (auto simp: vec_at_def reprojected_def Let_def split: if_splits sum.splits)
  from norm_L2_Inr [OF n] l r that show ?thesis by simp
qed

lemma cre_loop_totals:
  "computeReprojectionErrors_loop proj c is (errs, te, tp) = Inr (errs', te', tp') \<Longrightarrow>
   te' = te + (\<Sum>i\<leftarrow>is. sumSquaredError (imagePoints c ! i) (reprojected proj c i)) \<and>
   tp' = tp + int (\<Sum>i\<leftarrow>is. length (objectPoints c ! i)) \<and>
   length errs' = length errs"
proof (induction "is" arbitrary: errs te tp)
  case Nil
  then show ?case by simp
next
  case (Cons i "is")
  from Cons.prems show ?case
    by (elim cre_Cons_elim) (drule Cons.IH, simp)
qed

lemma cre_loop_other:
  "computeReprojectionErrors_loop proj c is (errs, te, tp) = Inr (errs', te', tp') \<Longrightarrow>
   k \<notin> set is \<Longrightarrow> errs' ! k = errs ! k"
proof (induction "is" arbitrary: errs te tp)
  case Nil
  then show ?case by simp
next
  case (Cons i "is")
  from Cons.prems(2) have ne: "i \<noteq> k" and notin: "k \<notin> set is" by auto
  from Cons.prems(1) show ?case
  proof (elim cre_Cons_elim)
    assume "computeReprojectionErrors_loop proj c is
       (errs[i := map_option sqrt (fdiv (sumSquaredError (imagePoints c ! i) (reprojected proj c i))
                     (real (length (objectPoints c ! i))))],
        te + sumSquaredError (imagePoints c ! i) (reprojected proj c i),
        tp + int (length (objectPoints c ! i))) = Inr (errs', te', tp')"
    from Cons.IH [OF this notin] ne show ?thesis by simp
  qed
qed

lemma cre_loop_visited:
  "computeReprojectionErrors_loop proj c is (errs, te, tp) = Inr (errs', te', tp') \<Longrightarrow>
   distinct is \<Longrightarrow> k \<in> set is \<Longrightarrow> k < length errs \<Longrightarrow>
   errs' ! k = map_option sqrt (fdiv (sumSquaredError (imagePoints c ! k) (reprojected proj c k))
                     (real (length (objectPoints c ! k))))"
proof (induction "is" arbitrary: errs te tp)
  case Nil
  then show ?case by simp
next
  case (Cons i "is")
  from Cons.prems(2) have dis: "distinct is" and inotin: "i \<notin> set is" by auto
  from Cons.prems(1) show ?case
  proof (elim cre_Cons_elim)
    assume r: "computeReprojectionErrors_loop proj c is
       (errs[i := map_option sqrt (fdiv (sumSquaredError (imagePoints c ! i) (reprojected proj c i))
                     (real (length (objectPoints c ! i))))],
        te + sumSquaredError (imagePoints c ! i) (reprojected proj c i),
        tp + int (length (objectPoints c ! i))) = Inr (errs', te', tp')"
    show ?thesis
    proof (cases "k = i")
      case True
      from cre_loop_other [OF r inotin] True Cons.prems(4) show ?thesis by simp
    next
      case False
      with Cons.prems(3) have "k \<in> set is" by simp
      from Cons.IH [OF r dis this] Cons.prems(4) show ?thesis by simp
    qed
  qed
qed

lemma cre_loop_total:
  "\<forall>i\<in>set is. i < length (objectPoints c) \<and> i < length (rvecs c) \<and> i < length (tvecs c) \<and>
      i < length (imagePoints c) \<and> length (reprojected proj c i) = length (imagePoints c ! i) \<Longrightarrow>
   \<exists>r. computeReprojectionErrors_loop proj c is (errs, te, tp) = Inr r"
proof (induction "is" arbitrary: errs te tp)
  case Nil
  show ?case by simp
next
  case (Cons i "is")
  then show ?case
    by (simp add: vec_at_def norm_L2_def reprojected_def Let_def)
qed


lemma sum_list_nth_length: "(\<Sum>i\<leftarrow>[0..<length xs]. length (xs ! i)) = sum_list (map length xs)"
proof -
  have "map (\<lambda>i. length (xs ! i)) [0..<length xs] = map length (map (\<lambda>i. xs ! i) [0..<length xs])"
    by simp
  also have "\<dots> = map length xs" by (simp only: map_nth)
  finally show ?thesis by simp
qed

lemma sqrt_option_nonneg:
  "0 \<le> a \<Longrightarrow> 0 \<le> b \<Longrightarrow> map_option sqrt (fdiv a b) = Some v \<Longrightarrow> 0 \<le> v"
  by (auto simp: fdiv_def split: if_splits)

text \<open>
  Claim C5, as the code has it. When the rotation and translation vectors and the 2D
  sets are there for every image and OpenCV's projection returns as many points as were
  observed, \<^verbatim>\<open>computeReprojectionErrors\<close> returns. For an image with at least one point the
  error is the square root of the quotient of its summed squared residuals by its
  number of points, and for a collection with at least one point the returned average
  is the square root of the quotient of the sum of all squared residuals by the number
  of all points: the root mean square over all points, and not the mean of the
  per-image errors. These values are non-negative, and the average is 0 when every
  observed point equals its reprojection and there is a point at all. In every case the
  two values are the square roots of these quotients, where a quotient with divisor
  zero is not a number.
\<close>

theorem computeReprojectionErrors_rms:
  assumes "length (objectPoints inCal) \<le> length (rvecs inCal)"
    and "length (objectPoints inCal) \<le> length (tvecs inCal)"
    and "length (objectPoints inCal) \<le> length (imagePoints inCal)"
    and "\<forall>i<length (objectPoints inCal).
           length (reprojected projectPoints inCal i) = length (imagePoints inCal ! i)"
  shows "\<exists>inCal' avg. computeReprojectionErrors projectPoints inCal = Inr (inCal', avg) \<and>
     length (reprojErrs inCal') = length (objectPoints inCal) \<and>
     (\<forall>i<length (objectPoints inCal).
        reprojErrs inCal' ! i =
          map_option sqrt
            (fdiv (sumSquaredError (imagePoints inCal ! i) (reprojected projectPoints inCal i))
               (real (length (objectPoints inCal ! i))))) \<and>
     (\<forall>i<length (objectPoints inCal). objectPoints inCal ! i \<noteq> [] \<longrightarrow>
        reprojErrs inCal' ! i =
          Some (sqrt (sumSquaredError (imagePoints inCal ! i) (reprojected projectPoints inCal i) /
                      real (length (objectPoints inCal ! i))))) \<and>
     (\<forall>i<length (objectPoints inCal). \<forall>v. reprojErrs inCal' ! i = Some v \<longrightarrow> 0 \<le> v) \<and>
     avg = map_option sqrt
       (fdiv (\<Sum>i\<leftarrow>[0..<length (objectPoints inCal)].
                sumSquaredError (imagePoints inCal ! i) (reprojected projectPoints inCal i))
          (real (sum_list (map length (objectPoints inCal))))) \<and>
     (sum_list (map length (objectPoints inCal)) \<noteq> 0 \<longrightarrow>
        avg = Some (sqrt
          ((\<Sum>i\<leftarrow>[0..<length (objectPoints inCal)].
              sumSquaredError (imagePoints inCal ! i) (reprojected projectPoints inCal i)) /
           real (sum_list (map length (objectPoints inCal)))))) \<and>
     (\<forall>v. avg = Some v \<longrightarrow> 0 \<le> v) \<and>
     (sum_list (map length (objectPoints inCal)) \<noteq> 0 \<and>
      (\<forall>i<length (objectPoints inCal).
         imagePoints inCal ! i = reprojected projectPoints inCal i) \<longrightarrow>
        avg = Some 0)"
proof -
  let ?n = "length (objectPoints inCal)"
  let ?E = "\<lambda>i. sumSquaredError (imagePoints inCal ! i) (reprojected projectPoints inCal i)"
  let ?errs0 = "resize (reprojErrs inCal) ?n (Some 0)"
  let ?tot = "\<Sum>i\<leftarrow>[0..<?n]. ?E i"
  let ?cnt = "sum_list (map length (objectPoints inCal))"
  have len0: "length ?errs0 = ?n" by (simp add: resize_def)
  from assms have "\<forall>i\<in>set [0..<?n]. i < length (objectPoints inCal) \<and> i < length (rvecs inCal) \<and>
      i < length (tvecs inCal) \<and> i < length (imagePoints inCal) \<and>
      length (reprojected projectPoints inCal i) = length (imagePoints inCal ! i)"
    by simp
  from cre_loop_total [OF this] obtain errs te tp where
    r: "computeReprojectionErrors_loop projectPoints inCal [0..<?n] (?errs0, 0, 0) = Inr (errs, te, tp)"
    by (metis prod_cases3)
  from cre_loop_totals [OF r] len0 have te: "te = ?tot" and tp: "tp = int ?cnt"
    and len: "length errs = ?n"
    by (simp_all add: sum_list_nth_length)
  have each: "errs ! i = map_option sqrt (fdiv (?E i) (real (length (objectPoints inCal ! i))))"
    if "i < ?n" for i
    using cre_loop_visited [OF r, of i] that len0 by simp
  have tot_nonneg: "0 \<le> ?tot"
    by (rule sum_list_nonneg) (auto simp: sumSquaredError_nonneg)
  let ?avg = "map_option sqrt (fdiv te (real_of_int tp))"
  have res: "computeReprojectionErrors projectPoints inCal = Inr (inCal\<lparr>reprojErrs := errs\<rparr>, ?avg)"
    by (simp add: computeReprojectionErrors_def r)
  have p0: "\<forall>i<?n. errs ! i =
      map_option sqrt (fdiv (?E i) (real (length (objectPoints inCal ! i))))"
    by (simp add: each)
  have p1: "\<forall>i<?n. objectPoints inCal ! i \<noteq> [] \<longrightarrow>
        errs ! i = Some (sqrt (?E i / real (length (objectPoints inCal ! i))))"
    by (simp add: each fdiv_def)
  have p2: "\<forall>i<?n. \<forall>v. errs ! i = Some v \<longrightarrow> 0 \<le> v"
  proof (intro allI impI)
    fix i v assume "i < ?n" "errs ! i = Some v"
    then have "map_option sqrt (fdiv (?E i) (real (length (objectPoints inCal ! i)))) = Some v"
      by (simp add: each)
    from sqrt_option_nonneg [OF sumSquaredError_nonneg _ this] show "0 \<le> v" by simp
  qed
  have p3': "?avg = map_option sqrt (fdiv ?tot (real ?cnt))"
    by (simp add: te tp)
  have p3: "?cnt \<noteq> 0 \<longrightarrow> ?avg = Some (sqrt (?tot / real ?cnt))"
    by (simp add: te tp fdiv_def)
  have p4: "\<forall>v. ?avg = Some v \<longrightarrow> 0 \<le> v"
  proof (intro allI impI)
    fix v assume "?avg = Some v"
    then have "map_option sqrt (fdiv ?tot (real ?cnt)) = Some v" by (simp add: te tp)
    from sqrt_option_nonneg [OF tot_nonneg _ this] show "0 \<le> v" by simp
  qed
  have p5: "?cnt \<noteq> 0 \<and> (\<forall>i<?n. imagePoints inCal ! i = reprojected projectPoints inCal i) \<longrightarrow>
        ?avg = Some 0"
  proof
    assume a: "?cnt \<noteq> 0 \<and> (\<forall>i<?n. imagePoints inCal ! i = reprojected projectPoints inCal i)"
    then have "map ?E [0..<?n] = map (\<lambda>i. 0) [0..<?n]"
      by (simp add: sumSquaredError_same)
    then have "?tot = 0" by (simp only: sum_list_0)
    with a show "?avg = Some 0" by (simp add: te tp fdiv_def)
  qed
  from res len p0 p1 p2 p3' p3 p4 p5 show ?thesis
    by (intro exI [of _ "inCal\<lparr>reprojErrs := errs\<rparr>"] exI [of _ ?avg]) simp
qed


lemma upt_0_2: "[0..<2] = [0, 1]"
  by code_simp

text \<open>
  At the example the per-image errors are 2 and 0, whose mean is 1, and the average is
  the square root of 4/3.
\<close>

theorem computeReprojectionErrors_rms_witness:
  "(\<exists>inCal' avg. computeReprojectionErrors example_projectPoints example_solved = Inr (inCal', avg) \<and>
      reprojErrs inCal' ! 0 = Some 2 \<and> reprojErrs inCal' ! 1 = Some 0 \<and>
      avg = Some (sqrt (4 / 3))) \<and>
   sqrt (4 / 3) \<noteq> (2 + 0) / 2"
proof -
  have n: "length (objectPoints example_solved) = 2" by (simp add: example_solved_def)
  have h1: "length (objectPoints example_solved) \<le> length (rvecs example_solved)"
    and h2: "length (objectPoints example_solved) \<le> length (tvecs example_solved)"
    and h3: "length (objectPoints example_solved) \<le> length (imagePoints example_solved)"
    by (simp_all add: example_solved_def)
  have h4: "\<forall>i<length (objectPoints example_solved).
           length (reprojected example_projectPoints example_solved i) =
           length (imagePoints example_solved ! i)"
    by (auto simp: example_solved_def example_projectPoints_def reprojected_def less_Suc_eq)
  have e0: "sumSquaredError (imagePoints example_solved ! 0)
              (reprojected example_projectPoints example_solved 0) = 4"
    by (simp add: sumSquaredError_def example_solved_def example_projectPoints_def reprojected_def)
  have e1: "sumSquaredError (imagePoints example_solved ! Suc 0)
              (reprojected example_projectPoints example_solved (Suc 0)) = 0"
    by (simp add: sumSquaredError_def example_solved_def example_projectPoints_def reprojected_def
        upt_0_2)
  have o: "objectPoints example_solved ! 0 \<noteq> []" "objectPoints example_solved ! Suc 0 \<noteq> []"
    "length (objectPoints example_solved ! 0) = 1" "length (objectPoints example_solved ! Suc 0) = 2"
    "sum_list (map length (objectPoints example_solved)) = 3"
    by (simp_all add: example_solved_def)
  from computeReprojectionErrors_rms [OF h1 h2 h3 h4] obtain inCal' avg where
    r: "computeReprojectionErrors example_projectPoints example_solved = Inr (inCal', avg)"
    and p: "\<forall>i<length (objectPoints example_solved). objectPoints example_solved ! i \<noteq> [] \<longrightarrow>
        reprojErrs inCal' ! i =
          Some (sqrt (sumSquaredError (imagePoints example_solved ! i)
                        (reprojected example_projectPoints example_solved i) /
                      real (length (objectPoints example_solved ! i))))"
    and a: "sum_list (map length (objectPoints example_solved)) \<noteq> 0 \<longrightarrow>
        avg = Some (sqrt
          ((\<Sum>i\<leftarrow>[0..<length (objectPoints example_solved)].
              sumSquaredError (imagePoints example_solved ! i)
                (reprojected example_projectPoints example_solved i)) /
           real (sum_list (map length (objectPoints example_solved)))))"
    by blast
  have i0: "(0::nat) < length (objectPoints example_solved)"
    and i1: "Suc 0 < length (objectPoints example_solved)" by (simp_all add: n)
  from p [rule_format, OF i0 o(1)] have r0: "reprojErrs inCal' ! 0 = Some 2"
    by (simp add: e0 o(3))
  from p [rule_format, OF i1 o(2)] have r1: "reprojErrs inCal' ! 1 = Some 0"
    by (simp add: e1 o(4))
  have "(\<Sum>i\<leftarrow>[0..<length (objectPoints example_solved)].
              sumSquaredError (imagePoints example_solved ! i)
                (reprojected example_projectPoints example_solved i)) = 4"
    unfolding n upt_0_2 using e0 e1 by simp
  with a o(5) have av: "avg = Some (sqrt (4 / 3))" by simp
  have "sqrt (4 / 3) \<noteq> 1" by simp
  then have ne: "sqrt (4 / 3) \<noteq> (2 + 0) / 2" by simp
  from r r0 r1 av ne show ?thesis by blast
qed

text \<open>
  Claim C5 as stated fails: the error of an image without points is not a number, and
  for a collection without points, where every observed point equals its reprojection,
  the average is not a number either, and not 0.
\<close>

theorem computeReprojectionErrors_rms_counterexample:
  "computeReprojectionErrors example_projectPoints
     (example_solved\<lparr>imagePoints := [[Point2f 12 10], []],
                     objectPoints := [[Point3f 1 1 0], []]\<rparr>) =
     Inr (example_solved\<lparr>imagePoints := [[Point2f 12 10], []],
                         objectPoints := [[Point3f 1 1 0], []],
                         reprojErrs := [Some 2, None]\<rparr>, Some 2) \<and>
   computeReprojectionErrors example_projectPoints
     (example_solved\<lparr>imagePoints := [[], []], objectPoints := [[], []]\<rparr>) =
     Inr (example_solved\<lparr>imagePoints := [[], []], objectPoints := [[], []],
                         reprojErrs := [None, None]\<rparr>, None) \<and>
   imagePoints (example_solved\<lparr>imagePoints := [[], []], objectPoints := [[], []]\<rparr>) ! 0 =
     reprojected example_projectPoints
       (example_solved\<lparr>imagePoints := [[], []], objectPoints := [[], []]\<rparr>) 0 \<and>
   imagePoints (example_solved\<lparr>imagePoints := [[], []], objectPoints := [[], []]\<rparr>) ! 1 =
     reprojected example_projectPoints
       (example_solved\<lparr>imagePoints := [[], []], objectPoints := [[], []]\<rparr>) 1"
  by (simp add: computeReprojectionErrors_def example_solved_def example_projectPoints_def
      reprojected_def vec_at_def norm_L2_def fdiv_def resize_def upt_0_2)

section \<open>Properties of the calibration runs\<close>

lemma computeReprojectionErrors_Inr:
  "computeReprojectionErrors projectPoints c = Inr (c', avg) \<Longrightarrow>
   c' = c\<lparr>reprojErrs := reprojErrs c'\<rparr>"
  by (auto simp: computeReprojectionErrors_def split: sum.splits)

lemma computeReprojectionErrors_total:
  assumes "length (objectPoints c) \<le> length (rvecs c)"
    and "length (objectPoints c) \<le> length (tvecs c)"
    and "length (objectPoints c) \<le> length (imagePoints c)"
    and "\<forall>i<length (objectPoints c).
           length (reprojected projectPoints c i) = length (imagePoints c ! i)"
  shows "\<exists>c' avg. computeReprojectionErrors projectPoints c = Inr (c', avg)"
proof -
  from assms have "\<forall>i\<in>set [0..<length (objectPoints c)]. i < length (objectPoints c) \<and>
      i < length (rvecs c) \<and> i < length (tvecs c) \<and> i < length (imagePoints c) \<and>
      length (reprojected projectPoints c i) = length (imagePoints c ! i)"
    by simp
  from cre_loop_total [OF this] obtain errs te tp where
    "computeReprojectionErrors_loop projectPoints c [0..<length (objectPoints c)]
       (resize (reprojErrs c) (length (objectPoints c)) (Some 0), 0, 0) = Inr (errs, te, tp)"
    by (metis prod_cases3)
  then show ?thesis by (simp add: computeReprojectionErrors_def)
qed

lemma runIntrinsicCalibration_Inr:
  assumes "runIntrinsicCalibration calibrateCamera checkRange projectPoints s inCal = Inr (inCal', ok)"
  shows "(cameraMatrix inCal', distCoeffs inCal', rvecs inCal', tvecs inCal') =
           calibrateCamera (runIntrinsicCalibration_call s inCal)"
    and "ok = (checkRange (cameraMatrix inCal') \<and> checkRange (distCoeffs inCal'))"
    and "objectPoints inCal' = objectPoints inCal" and "imagePoints inCal' = imagePoints inCal"
proof -
  obtain cm dc rv tv where c: "calibrateCamera (runIntrinsicCalibration_call s inCal) = (cm, dc, rv, tv)"
    by (metis prod_cases4)
  let ?c1 = "inCal\<lparr>cameraMatrix := cm, distCoeffs := dc, rvecs := rv, tvecs := tv\<rparr>"
  from assms c obtain c2 avg where
    r: "computeReprojectionErrors projectPoints ?c1 = Inr (c2, avg)"
    and e: "inCal' = c2\<lparr>totalAvgErr := avg\<rparr>" and o: "ok = (checkRange cm \<and> checkRange dc)"
    by (auto simp: runIntrinsicCalibration_def Let_def split: sum.splits)
  from computeReprojectionErrors_Inr [OF r] e
  have i: "inCal' = ?c1\<lparr>reprojErrs := reprojErrs c2, totalAvgErr := avg\<rparr>" by simp
  have f: "cameraMatrix inCal' = cm" "distCoeffs inCal' = dc" "rvecs inCal' = rv" "tvecs inCal' = tv"
    "objectPoints inCal' = objectPoints inCal" "imagePoints inCal' = imagePoints inCal"
    by (subst i, simp)+
  from f c show "(cameraMatrix inCal', distCoeffs inCal', rvecs inCal', tvecs inCal') =
           calibrateCamera (runIntrinsicCalibration_call s inCal)" by simp
  from f o show "ok = (checkRange (cameraMatrix inCal') \<and> checkRange (distCoeffs inCal'))" by simp
  from f show "objectPoints inCal' = objectPoints inCal" "imagePoints inCal' = imagePoints inCal"
    by simp_all
qed

lemma runIntrinsicCalibration_reached:
  assumes c: "calibrateCamera (runIntrinsicCalibration_call s inCal) = (cm, dc, rv, tv)"
    and "length (objectPoints inCal) \<le> length rv" and "length (objectPoints inCal) \<le> length tv"
    and "length (objectPoints inCal) \<le> length (imagePoints inCal)"
    and "\<forall>i<length (objectPoints inCal).
           length (projectPoints (objectPoints inCal ! i) (rv ! i) (tv ! i) cm dc) =
           length (imagePoints inCal ! i)"
  shows "\<exists>inCal'. runIntrinsicCalibration calibrateCamera checkRange projectPoints s inCal =
           Inr (inCal', checkRange cm \<and> checkRange dc)"
proof -
  let ?c1 = "inCal\<lparr>cameraMatrix := cm, distCoeffs := dc, rvecs := rv, tvecs := tv\<rparr>"
  from assms(2-5) have "\<exists>c' avg. computeReprojectionErrors projectPoints ?c1 = Inr (c', avg)"
    by (intro computeReprojectionErrors_total) (simp_all add: reprojected_def)
  then obtain c' avg where "computeReprojectionErrors projectPoints ?c1 = Inr (c', avg)" by blast
  with c show ?thesis by (simp add: runIntrinsicCalibration_def)
qed

text \<open>
  Claim C9. With a prior, the solver is called from the prior's camera matrix and
  distortion coefficients with the settings' flags and \<^verbatim>\<open>CV_CALIB_USE_INTRINSIC_GUESS\<close>
  set; without one it is called from the 3x3 identity and eight zero coefficients, with
  the settings' flags. Whenever \<^verbatim>\<open>runIntrinsicCalibration\<close> returns, the camera matrix,
  the distortion coefficients and the rotation and translation vectors of its result
  are what the solver returned for exactly that call, and the success flag is the range
  check of these intrinsics. It returns whenever the solver gives a rotation and a
  translation vector for every image and the projection gives as many points as were
  observed. The solver enters \<^verbatim>\<open>runIntrinsicCalibration\<close> through this call only.
\<close>

theorem runIntrinsicCalibration_seed:
  "(useIntrinsicInput s \<longrightarrow>
      cc_cameraMatrix (runIntrinsicCalibration_call s inCal) = cameraMatrix (intrinsicInput s) \<and>
      cc_distCoeffs (runIntrinsicCalibration_call s inCal) = distCoeffs (intrinsicInput s) \<and>
      cc_flags (runIntrinsicCalibration_call s inCal) = flag s OR CV_CALIB_USE_INTRINSIC_GUESS \<and>
      cc_flags (runIntrinsicCalibration_call s inCal) AND CV_CALIB_USE_INTRINSIC_GUESS =
        CV_CALIB_USE_INTRINSIC_GUESS) \<and>
   (\<not> useIntrinsicInput s \<longrightarrow>
      cc_cameraMatrix (runIntrinsicCalibration_call s inCal) = [[1, 0, 0], [0, 1, 0], [0, 0, 1]] \<and>
      cc_distCoeffs (runIntrinsicCalibration_call s inCal) = [[0], [0], [0], [0], [0], [0], [0], [0]] \<and>
      cc_flags (runIntrinsicCalibration_call s inCal) = flag s) \<and>
   cc_objectPoints (runIntrinsicCalibration_call s inCal) = objectPoints inCal \<and>
   cc_imagePoints (runIntrinsicCalibration_call s inCal) = imagePoints inCal \<and>
   (\<forall>solver solver'.
      solver (runIntrinsicCalibration_call s inCal) = solver' (runIntrinsicCalibration_call s inCal) \<longrightarrow>
      runIntrinsicCalibration solver checkRange projectPoints s inCal =
      runIntrinsicCalibration solver' checkRange projectPoints s inCal) \<and>
   (useIntrinsicInput s \<longrightarrow>
      (\<forall>inCal' ok.
         runIntrinsicCalibration calibrateCamera checkRange projectPoints s inCal = Inr (inCal', ok) \<longrightarrow>
         (cameraMatrix inCal', distCoeffs inCal', rvecs inCal', tvecs inCal') =
           calibrateCamera
             \<lparr>cc_objectPoints = objectPoints inCal, cc_imagePoints = imagePoints inCal,
              cc_imageSize = imageSize s,
              cc_cameraMatrix = cameraMatrix (intrinsicInput s),
              cc_distCoeffs = distCoeffs (intrinsicInput s),
              cc_flags = flag s OR CV_CALIB_USE_INTRINSIC_GUESS\<rparr> \<and>
         ok = (checkRange (cameraMatrix inCal') \<and> checkRange (distCoeffs inCal')) \<and>
         objectPoints inCal' = objectPoints inCal \<and> imagePoints inCal' = imagePoints inCal)) \<and>
   (\<not> useIntrinsicInput s \<longrightarrow>
      (\<forall>inCal' ok.
         runIntrinsicCalibration calibrateCamera checkRange projectPoints s inCal = Inr (inCal', ok) \<longrightarrow>
         (cameraMatrix inCal', distCoeffs inCal', rvecs inCal', tvecs inCal') =
           calibrateCamera
             \<lparr>cc_objectPoints = objectPoints inCal, cc_imagePoints = imagePoints inCal,
              cc_imageSize = imageSize s,
              cc_cameraMatrix = [[1, 0, 0], [0, 1, 0], [0, 0, 1]],
              cc_distCoeffs = [[0], [0], [0], [0], [0], [0], [0], [0]],
              cc_flags = flag s\<rparr> \<and>
         ok = (checkRange (cameraMatrix inCal') \<and> checkRange (distCoeffs inCal')) \<and>
         objectPoints inCal' = objectPoints inCal \<and> imagePoints inCal' = imagePoints inCal)) \<and>
   (\<forall>cm dc rv tv.
      calibrateCamera (runIntrinsicCalibration_call s inCal) = (cm, dc, rv, tv) \<and>
      length (objectPoints inCal) \<le> length rv \<and> length (objectPoints inCal) \<le> length tv \<and>
      length (objectPoints inCal) \<le> length (imagePoints inCal) \<and>
      (\<forall>i<length (objectPoints inCal).
         length (projectPoints (objectPoints inCal ! i) (rv ! i) (tv ! i) cm dc) =
         length (imagePoints inCal ! i)) \<longrightarrow>
      (\<exists>inCal'. runIntrinsicCalibration calibrateCamera checkRange projectPoints s inCal =
           Inr (inCal', checkRange cm \<and> checkRange dc) \<and>
         cameraMatrix inCal' = cm \<and> distCoeffs inCal' = dc \<and> rvecs inCal' = rv \<and>
         tvecs inCal' = tv))"
proof -
  have e: "Mat_eye 3 3 = [[1, 0, 0], [0, 1, 0], [0, 0, 1]]"
    by (simp add: Mat_eye_def upt_0_3)
  have z: "Mat_zeros 8 1 = [[0], [0], [0], [0], [0], [0], [0], [0]]"
    by (simp add: Mat_zeros_def eval_nat_numeral)
  have f: "(flag s OR CV_CALIB_USE_INTRINSIC_GUESS) AND CV_CALIB_USE_INTRINSIC_GUESS =
        CV_CALIB_USE_INTRINSIC_GUESS"
    by (simp add: bit.conj_disj_distrib2)
  have old: "(useIntrinsicInput s \<longrightarrow>
      cc_cameraMatrix (runIntrinsicCalibration_call s inCal) = cameraMatrix (intrinsicInput s) \<and>
      cc_distCoeffs (runIntrinsicCalibration_call s inCal) = distCoeffs (intrinsicInput s) \<and>
      cc_flags (runIntrinsicCalibration_call s inCal) = flag s OR CV_CALIB_USE_INTRINSIC_GUESS \<and>
      cc_flags (runIntrinsicCalibration_call s inCal) AND CV_CALIB_USE_INTRINSIC_GUESS =
        CV_CALIB_USE_INTRINSIC_GUESS) \<and>
   (\<not> useIntrinsicInput s \<longrightarrow>
      cc_cameraMatrix (runIntrinsicCalibration_call s inCal) = [[1, 0, 0], [0, 1, 0], [0, 0, 1]] \<and>
      cc_distCoeffs (runIntrinsicCalibration_call s inCal) = [[0], [0], [0], [0], [0], [0], [0], [0]] \<and>
      cc_flags (runIntrinsicCalibration_call s inCal) = flag s) \<and>
   cc_objectPoints (runIntrinsicCalibration_call s inCal) = objectPoints inCal \<and>
   cc_imagePoints (runIntrinsicCalibration_call s inCal) = imagePoints inCal \<and>
   (\<forall>solver solver'.
      solver (runIntrinsicCalibration_call s inCal) = solver' (runIntrinsicCalibration_call s inCal) \<longrightarrow>
      runIntrinsicCalibration solver checkRange projectPoints s inCal =
      runIntrinsicCalibration solver' checkRange projectPoints s inCal)"
    unfolding runIntrinsicCalibration_call_def runIntrinsicCalibration_def e z
    using f by simp
  have c1: "runIntrinsicCalibration_call s inCal =
             \<lparr>cc_objectPoints = objectPoints inCal, cc_imagePoints = imagePoints inCal,
              cc_imageSize = imageSize s,
              cc_cameraMatrix = cameraMatrix (intrinsicInput s),
              cc_distCoeffs = distCoeffs (intrinsicInput s),
              cc_flags = flag s OR CV_CALIB_USE_INTRINSIC_GUESS\<rparr>" if "useIntrinsicInput s"
    using that by (simp add: runIntrinsicCalibration_call_def)
  have c2: "runIntrinsicCalibration_call s inCal =
             \<lparr>cc_objectPoints = objectPoints inCal, cc_imagePoints = imagePoints inCal,
              cc_imageSize = imageSize s,
              cc_cameraMatrix = [[1, 0, 0], [0, 1, 0], [0, 0, 1]],
              cc_distCoeffs = [[0], [0], [0], [0], [0], [0], [0], [0]],
              cc_flags = flag s\<rparr>" if "\<not> useIntrinsicInput s"
    using that unfolding runIntrinsicCalibration_call_def e z by simp
  have n1: "useIntrinsicInput s \<longrightarrow>
      (\<forall>inCal' ok.
         runIntrinsicCalibration calibrateCamera checkRange projectPoints s inCal = Inr (inCal', ok) \<longrightarrow>
         (cameraMatrix inCal', distCoeffs inCal', rvecs inCal', tvecs inCal') =
           calibrateCamera
             \<lparr>cc_objectPoints = objectPoints inCal, cc_imagePoints = imagePoints inCal,
              cc_imageSize = imageSize s,
              cc_cameraMatrix = cameraMatrix (intrinsicInput s),
              cc_distCoeffs = distCoeffs (intrinsicInput s),
              cc_flags = flag s OR CV_CALIB_USE_INTRINSIC_GUESS\<rparr> \<and>
         ok = (checkRange (cameraMatrix inCal') \<and> checkRange (distCoeffs inCal')) \<and>
         objectPoints inCal' = objectPoints inCal \<and> imagePoints inCal' = imagePoints inCal)"
  proof (intro impI allI)
    fix inCal' ok assume u: "useIntrinsicInput s"
      and r: "runIntrinsicCalibration calibrateCamera checkRange projectPoints s inCal = Inr (inCal', ok)"
    from runIntrinsicCalibration_Inr [OF r] c1 [OF u]
    show "(cameraMatrix inCal', distCoeffs inCal', rvecs inCal', tvecs inCal') =
           calibrateCamera
             \<lparr>cc_objectPoints = objectPoints inCal, cc_imagePoints = imagePoints inCal,
              cc_imageSize = imageSize s,
              cc_cameraMatrix = cameraMatrix (intrinsicInput s),
              cc_distCoeffs = distCoeffs (intrinsicInput s),
              cc_flags = flag s OR CV_CALIB_USE_INTRINSIC_GUESS\<rparr> \<and>
         ok = (checkRange (cameraMatrix inCal') \<and> checkRange (distCoeffs inCal')) \<and>
         objectPoints inCal' = objectPoints inCal \<and> imagePoints inCal' = imagePoints inCal"
      by simp
  qed
  have n2: "\<not> useIntrinsicInput s \<longrightarrow>
      (\<forall>inCal' ok.
         runIntrinsicCalibration calibrateCamera checkRange projectPoints s inCal = Inr (inCal', ok) \<longrightarrow>
         (cameraMatrix inCal', distCoeffs inCal', rvecs inCal', tvecs inCal') =
           calibrateCamera
             \<lparr>cc_objectPoints = objectPoints inCal, cc_imagePoints = imagePoints inCal,
              cc_imageSize = imageSize s,
              cc_cameraMatrix = [[1, 0, 0], [0, 1, 0], [0, 0, 1]],
              cc_distCoeffs = [[0], [0], [0], [0], [0], [0], [0], [0]],
              cc_flags = flag s\<rparr> \<and>
         ok = (checkRange (cameraMatrix inCal') \<and> checkRange (distCoeffs inCal')) \<and>
         objectPoints inCal' = objectPoints inCal \<and> imagePoints inCal' = imagePoints inCal)"
  proof (intro impI allI)
    fix inCal' ok assume u: "\<not> useIntrinsicInput s"
      and r: "runIntrinsicCalibration calibrateCamera checkRange projectPoints s inCal = Inr (inCal', ok)"
    from runIntrinsicCalibration_Inr [OF r] c2 [OF u]
    show "(cameraMatrix inCal', distCoeffs inCal', rvecs inCal', tvecs inCal') =
           calibrateCamera
             \<lparr>cc_objectPoints = objectPoints inCal, cc_imagePoints = imagePoints inCal,
              cc_imageSize = imageSize s,
              cc_cameraMatrix = [[1, 0, 0], [0, 1, 0], [0, 0, 1]],
              cc_distCoeffs = [[0], [0], [0], [0], [0], [0], [0], [0]],
              cc_flags = flag s\<rparr> \<and>
         ok = (checkRange (cameraMatrix inCal') \<and> checkRange (distCoeffs inCal')) \<and>
         objectPoints inCal' = objectPoints inCal \<and> imagePoints inCal' = imagePoints inCal"
      by simp
  qed
  have n3: "\<forall>cm dc rv tv.
      calibrateCamera (runIntrinsicCalibration_call s inCal) = (cm, dc, rv, tv) \<and>
      length (objectPoints inCal) \<le> length rv \<and> length (objectPoints inCal) \<le> length tv \<and>
      length (objectPoints inCal) \<le> length (imagePoints inCal) \<and>
      (\<forall>i<length (objectPoints inCal).
         length (projectPoints (objectPoints inCal ! i) (rv ! i) (tv ! i) cm dc) =
         length (imagePoints inCal ! i)) \<longrightarrow>
      (\<exists>inCal'. runIntrinsicCalibration calibrateCamera checkRange projectPoints s inCal =
           Inr (inCal', checkRange cm \<and> checkRange dc) \<and>
         cameraMatrix inCal' = cm \<and> distCoeffs inCal' = dc \<and> rvecs inCal' = rv \<and>
         tvecs inCal' = tv)"
  proof (intro allI impI)
    fix cm dc rv tv
    assume a: "calibrateCamera (runIntrinsicCalibration_call s inCal) = (cm, dc, rv, tv) \<and>
      length (objectPoints inCal) \<le> length rv \<and> length (objectPoints inCal) \<le> length tv \<and>
      length (objectPoints inCal) \<le> length (imagePoints inCal) \<and>
      (\<forall>i<length (objectPoints inCal).
         length (projectPoints (objectPoints inCal ! i) (rv ! i) (tv ! i) cm dc) =
         length (imagePoints inCal ! i))"
    then have c: "calibrateCamera (runIntrinsicCalibration_call s inCal) = (cm, dc, rv, tv)" by simp
    from a have "\<exists>inCal'. runIntrinsicCalibration calibrateCamera checkRange projectPoints s inCal =
           Inr (inCal', checkRange cm \<and> checkRange dc)"
      by (intro runIntrinsicCalibration_reached [where rv = rv and tv = tv]) simp_all
    then obtain inCal' where r: "runIntrinsicCalibration calibrateCamera checkRange projectPoints s inCal =
           Inr (inCal', checkRange cm \<and> checkRange dc)" by blast
    from runIntrinsicCalibration_Inr(1) [OF r] c
    have "cameraMatrix inCal' = cm \<and> distCoeffs inCal' = dc \<and> rvecs inCal' = rv \<and> tvecs inCal' = tv"
      by simp
    with r show "\<exists>inCal'. runIntrinsicCalibration calibrateCamera checkRange projectPoints s inCal =
           Inr (inCal', checkRange cm \<and> checkRange dc) \<and>
         cameraMatrix inCal' = cm \<and> distCoeffs inCal' = dc \<and> rvecs inCal' = rv \<and>
         tvecs inCal' = tv" by blast
  qed
  from old n1 n2 n3 show ?thesis by (intro conjI) (elim conjE, assumption)+
qed


text \<open>
  With the stand-in solver that keeps its starting intrinsics, the run with the prior
  ends with the prior's intrinsics and the run without it with the identity and zeros.
\<close>

theorem runIntrinsicCalibration_seed_witness:
  "cc_cameraMatrix (runIntrinsicCalibration_call example_settings example_inCal) =
     [[800, 0, 320], [0, 800, 240], [0, 0, 1]] \<and>
   cc_distCoeffs (runIntrinsicCalibration_call example_settings example_inCal) =
     [[1 / 10], [0], [0], [0], [0]] \<and>
   cc_flags (runIntrinsicCalibration_call example_settings example_inCal) = 1 \<and>
   cc_cameraMatrix (runIntrinsicCalibration_call
       (example_settings\<lparr>useIntrinsicInput := False\<rparr>) example_inCal) =
     [[1, 0, 0], [0, 1, 0], [0, 0, 1]] \<and>
   cc_flags (runIntrinsicCalibration_call
       (example_settings\<lparr>useIntrinsicInput := False\<rparr>) example_inCal) = 0 \<and>
   (\<exists>inCal'. runIntrinsicCalibration example_calibrateCamera (\<lambda>m. True) example_projectPoints
        example_settings example_solved = Inr (inCal', True) \<and>
      cameraMatrix inCal' = [[800, 0, 320], [0, 800, 240], [0, 0, 1]] \<and>
      distCoeffs inCal' = [[1 / 10], [0], [0], [0], [0]]) \<and>
   (\<exists>inCal'. runIntrinsicCalibration example_calibrateCamera (\<lambda>m. True) example_projectPoints
        (example_settings\<lparr>useIntrinsicInput := False\<rparr>) example_solved = Inr (inCal', True) \<and>
      cameraMatrix inCal' = [[1, 0, 0], [0, 1, 0], [0, 0, 1]] \<and>
      distCoeffs inCal' = [[0], [0], [0], [0], [0], [0], [0], [0]])"
proof -
  let ?s2 = "example_settings\<lparr>useIntrinsicInput := False\<rparr>"
  have u: "useIntrinsicInput example_settings" by (simp add: example_settings_def)
  have n: "\<not> useIntrinsicInput ?s2" by simp
  note t1 = runIntrinsicCalibration_seed [of example_settings example_inCal,
      THEN conjunct1, rule_format, OF u]
  note t2 = runIntrinsicCalibration_seed [of ?s2
      example_inCal, THEN conjunct2, THEN conjunct1, rule_format, OF n]
  from t1 t2 have old: "cc_cameraMatrix (runIntrinsicCalibration_call example_settings example_inCal) =
     [[800, 0, 320], [0, 800, 240], [0, 0, 1]] \<and>
   cc_distCoeffs (runIntrinsicCalibration_call example_settings example_inCal) =
     [[1 / 10], [0], [0], [0], [0]] \<and>
   cc_flags (runIntrinsicCalibration_call example_settings example_inCal) = 1 \<and>
   cc_cameraMatrix (runIntrinsicCalibration_call ?s2 example_inCal) =
     [[1, 0, 0], [0, 1, 0], [0, 0, 1]] \<and>
   cc_flags (runIntrinsicCalibration_call ?s2 example_inCal) = 0"
    by (simp add: example_settings_def example_prior_def CV_CALIB_USE_INTRINSIC_GUESS_def)
  have l: "length (objectPoints example_solved) = 2" "length (imagePoints example_solved) = 2"
    by (simp_all add: example_solved_def)
  have p: "\<forall>i<length (objectPoints example_solved).
         length (example_projectPoints (objectPoints example_solved ! i) (rv ! i) (tv ! i) cm dc) =
         length (imagePoints example_solved ! i)" for rv tv cm dc
    by (auto simp: example_solved_def example_projectPoints_def less_Suc_eq)
  have s1: "example_calibrateCamera (runIntrinsicCalibration_call example_settings example_solved) =
     ([[800, 0, 320], [0, 800, 240], [0, 0, 1]], [[1 / 10], [0], [0], [0], [0]],
      [[[0], [0], [0]], [[0], [0], [0]]], [[[0], [0], [1]], [[0], [0], [1]]])"
    by (simp add: example_calibrateCamera_def runIntrinsicCalibration_call_def
        example_settings_def example_prior_def example_solved_def)
  have s2: "example_calibrateCamera (runIntrinsicCalibration_call ?s2 example_solved) =
     ([[1, 0, 0], [0, 1, 0], [0, 0, 1]], [[0], [0], [0], [0], [0], [0], [0], [0]],
      [[[0], [0], [0]], [[0], [0], [0]]], [[[0], [0], [1]], [[0], [0], [1]]])"
    using runIntrinsicCalibration_seed [of ?s2 example_solved,
        THEN conjunct2, THEN conjunct1, rule_format, OF n]
    by (simp add: example_calibrateCamera_def runIntrinsicCalibration_call_def example_solved_def)
  from runIntrinsicCalibration_seed [of example_settings example_solved "\<lambda>m. True"
      example_projectPoints example_calibrateCamera, THEN conjunct2, THEN conjunct2, THEN conjunct2, THEN conjunct2, THEN conjunct2, THEN conjunct2, THEN conjunct2, rule_format,
      of "[[800, 0, 320], [0, 800, 240], [0, 0, 1]]" "[[1 / 10], [0], [0], [0], [0]]"
         "[[[0], [0], [0]], [[0], [0], [0]]]" "[[[0], [0], [1]], [[0], [0], [1]]]"]
    s1 l p
  have w1: "\<exists>inCal'. runIntrinsicCalibration example_calibrateCamera (\<lambda>m. True) example_projectPoints
        example_settings example_solved = Inr (inCal', True) \<and>
      cameraMatrix inCal' = [[800, 0, 320], [0, 800, 240], [0, 0, 1]] \<and>
      distCoeffs inCal' = [[1 / 10], [0], [0], [0], [0]]"
    by auto
  from runIntrinsicCalibration_seed [of ?s2 example_solved "\<lambda>m. True"
      example_projectPoints example_calibrateCamera, THEN conjunct2, THEN conjunct2, THEN conjunct2, THEN conjunct2, THEN conjunct2, THEN conjunct2, THEN conjunct2, rule_format,
      of "[[1, 0, 0], [0, 1, 0], [0, 0, 1]]" "[[0], [0], [0], [0], [0], [0], [0], [0]]"
         "[[[0], [0], [0]], [[0], [0], [0]]]" "[[[0], [0], [1]], [[0], [0], [1]]]"]
    s2 l p
  have w2: "\<exists>inCal'. runIntrinsicCalibration example_calibrateCamera (\<lambda>m. True) example_projectPoints
        ?s2 example_solved = Inr (inCal', True) \<and>
      cameraMatrix inCal' = [[1, 0, 0], [0, 1, 0], [0, 0, 1]] \<and>
      distCoeffs inCal' = [[0], [0], [0], [0], [0], [0], [0], [0]]"
    by auto
  from old w1 w2 show ?thesis by (intro conjI) (elim conjE, assumption)+
qed

lemma getSharedPoints_intrinsics:
  assumes "getSharedPoints a b = Inr (a', b')"
  shows "cameraMatrix a' = cameraMatrix a" "distCoeffs a' = distCoeffs a"
    "cameraMatrix b' = cameraMatrix b" "distCoeffs b' = distCoeffs b"
proof -
  from loop_more [OF assms [unfolded getSharedPoints_def]]
  have a: "a' = a\<lparr>objectPoints := objectPoints a', imagePoints := imagePoints a'\<rparr>"
    and b: "b' = b\<lparr>objectPoints := objectPoints b', imagePoints := imagePoints b'\<rparr>"
    by simp_all
  show "cameraMatrix a' = cameraMatrix a" by (subst a) simp
  show "distCoeffs a' = distCoeffs a" by (subst a) simp
  show "cameraMatrix b' = cameraMatrix b" by (subst b) simp
  show "distCoeffs b' = distCoeffs b" by (subst b) simp
qed

text \<open>
  Claim C10. With a prior, the first step of \<^verbatim>\<open>runStereoCalibration\<close> gives both cameras
  the prior's camera matrix and distortion coefficients, and whenever the stereo solver
  is called, the intrinsics it receives for the two cameras are those of the prior, the
  same for both. The solver is reached for a chessboard, and for collections that keep
  the invariant and hold the same number of images.
\<close>

theorem runStereoCalibration_same_intrinsics:
  assumes "useIntrinsicInput s"
  shows "cameraMatrix (fst (runStereoCalibration_intrinsics s inCal inCal2)) =
           cameraMatrix (intrinsicInput s) \<and>
         cameraMatrix (snd (runStereoCalibration_intrinsics s inCal inCal2)) =
           cameraMatrix (intrinsicInput s) \<and>
         distCoeffs (fst (runStereoCalibration_intrinsics s inCal inCal2)) =
           distCoeffs (intrinsicInput s) \<and>
         distCoeffs (snd (runStereoCalibration_intrinsics s inCal inCal2)) =
           distCoeffs (intrinsicInput s) \<and>
         (\<forall>a' b' c. runStereoCalibration_call s inCal inCal2 = Inr (a', b', c) \<longrightarrow>
            sc_cameraMatrix1 c = cameraMatrix (intrinsicInput s) \<and>
            sc_cameraMatrix2 c = cameraMatrix (intrinsicInput s) \<and>
            sc_distCoeffs1 c = distCoeffs (intrinsicInput s) \<and>
            sc_distCoeffs2 c = distCoeffs (intrinsicInput s) \<and>
            sc_cameraMatrix1 c = sc_cameraMatrix2 c \<and>
            sc_distCoeffs1 c = sc_distCoeffs2 c) \<and>
         (calibrationPattern s = CHESSBOARD \<or>
          corr_inv inCal \<and> corr_inv inCal2 \<and>
          length (objectPoints inCal) = length (objectPoints inCal2) \<longrightarrow>
            (\<exists>r. runStereoCalibration_call s inCal inCal2 = Inr r))"
proof -
  let ?a = "inCal\<lparr>cameraMatrix := cameraMatrix (intrinsicInput s),
                distCoeffs := distCoeffs (intrinsicInput s)\<rparr>"
  let ?b = "inCal2\<lparr>cameraMatrix := cameraMatrix (intrinsicInput s),
                 distCoeffs := distCoeffs (intrinsicInput s)\<rparr>"
  from assms have i: "runStereoCalibration_intrinsics s inCal inCal2 = (?a, ?b)"
    by (simp add: runStereoCalibration_intrinsics_def)
  have call: "sc_cameraMatrix1 c = cameraMatrix (intrinsicInput s) \<and>
            sc_cameraMatrix2 c = cameraMatrix (intrinsicInput s) \<and>
            sc_distCoeffs1 c = distCoeffs (intrinsicInput s) \<and>
            sc_distCoeffs2 c = distCoeffs (intrinsicInput s) \<and>
            sc_cameraMatrix1 c = sc_cameraMatrix2 c \<and>
            sc_distCoeffs1 c = sc_distCoeffs2 c"
    if r: "runStereoCalibration_call s inCal inCal2 = Inr (a', b', c)" for a' b' c
  proof (cases "calibrationPattern s = CHESSBOARD")
    case True
    with r i show ?thesis by (auto simp: runStereoCalibration_call_def)
  next
    case False
    with r i have g: "getSharedPoints ?a ?b = Inr (a', b')"
      and c: "sc_cameraMatrix1 c = cameraMatrix a'" "sc_cameraMatrix2 c = cameraMatrix b'"
        "sc_distCoeffs1 c = distCoeffs a'" "sc_distCoeffs2 c = distCoeffs b'"
      by (auto simp: runStereoCalibration_call_def split: sum.splits)
    from getSharedPoints_intrinsics [OF g] c show ?thesis by simp
  qed
  have tot: "\<exists>r. runStereoCalibration_call s inCal inCal2 = Inr r"
    if h: "calibrationPattern s = CHESSBOARD \<or>
          corr_inv inCal \<and> corr_inv inCal2 \<and>
          length (objectPoints inCal) = length (objectPoints inCal2)"
  proof (cases "calibrationPattern s = CHESSBOARD")
    case True
    with i show ?thesis by (simp add: runStereoCalibration_call_def)
  next
    case False
    with h have "corr_inv ?a" "corr_inv ?b" "length (objectPoints ?a) = length (objectPoints ?b)"
      by (simp_all add: corr_inv_def)
    from getSharedPoints_total [OF this] obtain a' b' where "getSharedPoints ?a ?b = Inr (a', b')"
      by (metis surj_pair)
    with False i show ?thesis by (simp add: runStereoCalibration_call_def)
  qed
  from i call tot show ?thesis by simp
qed

theorem runStereoCalibration_same_intrinsics_witness:
  "useIntrinsicInput example_settings \<and>
   (\<exists>a' b' c. runStereoCalibration_call example_settings example_inCal example_inCal2 =
        Inr (a', b', c) \<and>
      sc_cameraMatrix1 c = [[800, 0, 320], [0, 800, 240], [0, 0, 1]] \<and>
      sc_cameraMatrix2 c = [[800, 0, 320], [0, 800, 240], [0, 0, 1]] \<and>
      sc_distCoeffs1 c = [[1 / 10], [0], [0], [0], [0]] \<and>
      sc_distCoeffs2 c = [[1 / 10], [0], [0], [0], [0]] \<and>
      sc_objectPoints c = [[Point3f 2 8 0, Point3f 3 8 0]])"
proof -
  have u: "useIntrinsicInput example_settings" by (simp add: example_settings_def)
  have r: "runStereoCalibration_call example_settings example_inCal example_inCal2 =
    Inr (example_inCal\<lparr>cameraMatrix := cameraMatrix example_prior,
           distCoeffs := distCoeffs example_prior,
           imagePoints := [[Point2f 20 10, Point2f 30 10]],
           objectPoints := [[Point3f 2 8 0, Point3f 3 8 0]]\<rparr>,
         example_inCal2\<lparr>cameraMatrix := cameraMatrix example_prior,
           distCoeffs := distCoeffs example_prior,
           imagePoints := [[Point2f 21 11, Point2f 31 11]],
           objectPoints := [[Point3f 2 8 0, Point3f 3 8 0]]\<rparr>,
         \<lparr>sc_objectPoints = [[Point3f 2 8 0, Point3f 3 8 0]],
          sc_imagePoints1 = [[Point2f 20 10, Point2f 30 10]],
          sc_imagePoints2 = [[Point2f 21 11, Point2f 31 11]],
          sc_cameraMatrix1 = cameraMatrix example_prior,
          sc_distCoeffs1 = distCoeffs example_prior,
          sc_cameraMatrix2 = cameraMatrix example_prior,
          sc_distCoeffs2 = distCoeffs example_prior,
          sc_imageSize = (640, 480), sc_maxCount = 1000, sc_epsilon = 1 / 10 ^ 10,
          sc_flags = CV_CALIB_FIX_INTRINSIC\<rparr>)"
    by (simp add: runStereoCalibration_call_def runStereoCalibration_intrinsics_def
        getSharedPoints_def getSharedPoints_image_def example_settings_def example_inCal_def
        example_inCal2_def vec_at_def)
  from runStereoCalibration_same_intrinsics [OF u, of example_inCal example_inCal2,
      THEN conjunct2, THEN conjunct2, THEN conjunct2, THEN conjunct2, THEN conjunct1,
      rule_format, OF r]
  have "sc_cameraMatrix1 (\<lparr>sc_objectPoints = [[Point3f 2 8 0, Point3f 3 8 0]],
          sc_imagePoints1 = [[Point2f 20 10, Point2f 30 10]],
          sc_imagePoints2 = [[Point2f 21 11, Point2f 31 11]],
          sc_cameraMatrix1 = cameraMatrix example_prior,
          sc_distCoeffs1 = distCoeffs example_prior,
          sc_cameraMatrix2 = cameraMatrix example_prior,
          sc_distCoeffs2 = distCoeffs example_prior,
          sc_imageSize = (640, 480), sc_maxCount = 1000, sc_epsilon = 1 / 10 ^ 10,
          sc_flags = CV_CALIB_FIX_INTRINSIC\<rparr>) = cameraMatrix (intrinsicInput example_settings)"
    by (rule conjunct1)
  with u r show ?thesis by (simp add: example_settings_def example_prior_def)
qed

end
